theory Spec2Isabelle
  imports Complex_Main "HOL-Library.Word" "HOL-Library.Sublist"
begin

section \<open>JavaScript strings and the built-ins the thread generator uses\<close>

text \<open>
  A JavaScript string is a sequence of UTF-16 code units; \<open>s.length\<close> is the number of
  code units. String literals of the sources are transcribed unit by unit; \<open>u16\<close> embeds
  a literal made of Basic Latin characters only.
\<close>

type_synonym jschar = "16 word"
type_synonym jsstring = "jschar list"

definition u16 :: "string \<Rightarrow> jsstring" where
  "u16 s = map (\<lambda>c. of_char c) s"

text \<open>
  White space as \<open>String.prototype.trim\<close> and the regular-expression class \<open>\s\<close>
  understand it: TAB, LF, VT, FF, CR, SPACE, NBSP, U+1680, U+2000 to U+200A, LS, PS,
  U+202F, U+205F, U+3000 and the byte-order mark.
\<close>

definition isWhiteSpace :: "jschar \<Rightarrow> bool" where
  "isWhiteSpace c =
     (c = 0x09 \<or> c = 0x0A \<or> c = 0x0B \<or> c = 0x0C \<or> c = 0x0D \<or> c = 0x20 \<or> c = 0xA0
      \<or> c = 0x1680 \<or> (0x2000 \<le> c \<and> c \<le> 0x200A) \<or> c = 0x2028 \<or> c = 0x2029
      \<or> c = 0x202F \<or> c = 0x205F \<or> c = 0x3000 \<or> c = 0xFEFF)"

definition trim :: "jsstring \<Rightarrow> jsstring" where
  "trim s = rev (dropWhile isWhiteSpace (rev (dropWhile isWhiteSpace s)))"

text \<open>\<open>[...new Set(xs)]\<close>: the elements of \<open>xs\<close> in the order of their first occurrence.\<close>

fun setAddAll :: "'a list \<Rightarrow> 'a list \<Rightarrow> 'a list" where
  "setAddAll seen [] = seen"
| "setAddAll seen (x # xs) = setAddAll (if x \<in> set seen then seen else seen @ [x]) xs"

definition newSet :: "'a list \<Rightarrow> 'a list" where
  "newSet xs = setAddAll [] xs"

text \<open>\<open>xs.join(sep)\<close>.\<close>

fun join :: "jsstring \<Rightarrow> jsstring list \<Rightarrow> jsstring" where
  "join sep [] = []"
| "join sep [x] = x"
| "join sep (x # y # ys) = x @ sep @ join sep (y # ys)"

text \<open>\<open>s.includes(t)\<close>: \<open>t\<close> occurs in \<open>s\<close> as a contiguous run of code units.\<close>

fun str_includes :: "jsstring \<Rightarrow> jsstring \<Rightarrow> bool" where
  "str_includes [] t = (t = [])"
| "str_includes (c # cs) t = (take (length t) (c # cs) = t \<or> str_includes cs t)"

text \<open>
  \<open>s.split(re)\<close> for a regular expression that never matches the empty string. The
  matcher \<open>m\<close> gives the length of the match that starts at the head of its argument,
  and 0 when there is none; \<open>cur\<close> is the piece collected since the last separator.
\<close>

function regexSplit :: "(jsstring \<Rightarrow> nat) \<Rightarrow> jsstring \<Rightarrow> jsstring \<Rightarrow> jsstring list" where
  "regexSplit m cur [] = [cur]"
| "regexSplit m cur (c # cs) =
     (if m (c # cs) > 0 then cur # regexSplit m [] (drop (m (c # cs) - 1) cs)
      else regexSplit m (cur @ [c]) cs)"
  by pat_completeness auto
termination
  by (relation "measure (\<lambda>(m, cur, s). length s)") auto

text \<open>The expression \<open>\s+\<close>: a run of white space, as long as possible.\<close>

definition matchSpaces :: "jsstring \<Rightarrow> nat" where
  "matchSpaces s = length (takeWhile isWhiteSpace s)"

text \<open>
  The sentence separator of both sources, \<open>[.!?XY]\s+\<close>, where the class holds the full
  stop, the exclamation mark, the question mark and the two code units U+00D8 and U+0178
  that stand in the files where the Arabic question mark was meant.
\<close>

definition isSentenceEnd :: "jschar \<Rightarrow> bool" where
  "isSentenceEnd c = (c = 0x2E \<or> c = 0x21 \<or> c = 0x3F \<or> c = 0xD8 \<or> c = 0x178)"

definition matchSentenceEnd :: "jsstring \<Rightarrow> nat" where
  "matchSentenceEnd s =
     (case s of [] \<Rightarrow> 0
      | c # cs \<Rightarrow> if isSentenceEnd c \<and> takeWhile isWhiteSpace cs \<noteq> []
                 then 1 + length (takeWhile isWhiteSpace cs) else 0)"

text \<open>
  The paragraph separator \<open>\n\s*\n\<close>: a line feed, then white space up to the last line
  feed of the run of white space that follows.
\<close>

definition matchParagraphBreak :: "jsstring \<Rightarrow> nat" where
  "matchParagraphBreak s =
     (case s of [] \<Rightarrow> 0
      | c # cs \<Rightarrow>
          (let run = takeWhile isWhiteSpace cs
           in if c = 0x0A \<and> 0x0A \<in> set run
              then 1 + (length run - length (takeWhile (\<lambda>d. d \<noteq> 0x0A) (rev run))) else 0))"

text \<open>
  \<open>s.lastIndexOf(c, from)\<close> for a single code unit \<open>c\<close>: the greatest index at most
  \<open>from\<close> that holds \<open>c\<close>, and -1 when there is none. \<open>s.indexOf(x)\<close> on an array is the
  first index that holds \<open>x\<close>.
\<close>

definition lastIndexOf :: "jschar \<Rightarrow> jsstring \<Rightarrow> nat \<Rightarrow> int" where
  "lastIndexOf c s from =
     (case filter (\<lambda>i. s ! i = c) (rev [0 ..< min (from + 1) (length s)]) of
        [] \<Rightarrow> - 1
      | i # _ \<Rightarrow> int i)"

definition indexOf :: "'a \<Rightarrow> 'a list \<Rightarrow> nat" where
  "indexOf x xs = length (takeWhile (\<lambda>y. y \<noteq> x) xs)"

text \<open>\<open>xs.slice(0, k)\<close>: a negative \<open>k\<close> counts from the end of the array.\<close>

definition sliceFromStart :: "'a list \<Rightarrow> int \<Rightarrow> 'a list" where
  "sliceFromStart xs k = (if k < 0 then take (nat (int (length xs) + k)) xs else take (nat k) xs)"

text \<open>The decimal numeral of a number, as template literals print it.\<close>

fun decimal :: "nat \<Rightarrow> jsstring" where
  "decimal n = (if n < 10 then [0x30 + of_nat n] else decimal (n div 10) @ [0x30 + of_nat (n mod 10)])"

declare decimal.simps [simp del]

text \<open>A value is truthy as a string when it is neither \<open>null\<close> nor the empty string.\<close>

definition truthy :: "jsstring option \<Rightarrow> bool" where
  "truthy v = (case v of None \<Rightarrow> False | Some str \<Rightarrow> str \<noteq> [])"

section \<open>The tweet object and the collaborators outside the repository\<close>

text \<open>
  The image suggestion of a tweet: the object built by \<open>generateImageSuggestion\<close>.
\<close>

record image_suggestion_obj =
  img_type :: jsstring
  img_content :: jsstring
  img_keywords :: "jsstring list"
  img_template :: jsstring

text \<open>
  A tweet of a thread, with the fields of the object literal in \<open>generateFallbackThread\<close>.
  The field \<open>text\<close> of the source is \<open>tweet_text\<close> here. \<open>warnings_id\<close> is not a field of
  the object: it names the array object that \<open>warnings\<close> holds, because copies of a tweet
  made with the spread syntax share that array.
\<close>

record tweet =
  index :: nat
  tweet_text :: jsstring
  char_count :: nat
  warnings :: "jsstring list"
  warnings_id :: nat
  hashtags :: "jsstring list"
  emoji_suggestions :: "jsstring list"
  cta :: "jsstring option"
  image_suggestion :: "image_suggestion_obj option"

text \<open>
  The result of \<open>detectLanguagePercentages\<close>, as far as the generator reads it: the
  share of Arabic letters in percent, the dominant language (\<open>arabic\<close>, \<open>english\<close>,
  \<open>other\<close> or \<open>unknown\<close>), the direction (\<open>ltr\<close> or \<open>rtl\<close>) and the flag for mixed text.
\<close>

record lang_analysis =
  arabic :: rat
  dominant_language :: jsstring
  direction :: jsstring
  is_mixed :: bool

text \<open>The keys of \<open>KEYWORD_PATTERNS\<close> and \<open>HASHTAG_DICTIONARY\<close>.\<close>

datatype topic = Ai | Programming | Writing | Education | Business | Productivity
  | Technology | Design | Finance | Health | Social | General

text \<open>
  What the generator takes from its runtime and its libraries, and the functions of the
  repository that rest on Unicode tables, on the regular-expression engine or on
  floating-point arithmetic, as parameters of the model:
  \<^item> \<open>splitGraphemes\<close>: the method of the \<open>grapheme-splitter\<close> package;
  \<^item> \<open>toLowerCase\<close>: \<open>String.prototype.toLowerCase\<close>, over all of Unicode;
  \<^item> \<open>detectLanguagePercentages\<close>: the language analysis of \<open>utils/langDetect.js\<close>, which
    removes the Unicode classes of punctuation and symbols and computes percentages;
  \<^item> \<open>detectTopics\<close>: the topics whose pattern of \<open>KEYWORD_PATTERNS\<close> matches the text,
    and \<open>general\<close> alone when none does;
  \<^item> \<open>randomPrefix\<close> and \<open>randomCTA\<close>: the outcomes of the two calls of \<open>Math.random\<close>;
  \<^item> \<open>generateImageSuggestion\<close>: the image suggestion for a segment and a style, which
    no property below reads.
\<close>

record env =
  splitGraphemes :: "jsstring \<Rightarrow> jsstring list"
  toLowerCase :: "jsstring \<Rightarrow> jsstring"
  detectLanguagePercentages :: "jsstring \<Rightarrow> lang_analysis"
  detectTopics :: "jsstring \<Rightarrow> topic list"
  randomPrefix :: nat
  randomCTA :: nat
  generateImageSuggestion :: "jsstring \<Rightarrow> jsstring \<Rightarrow> image_suggestion_obj"

section \<open>utils/charCounter.js\<close>

text \<open>
  \<open>getCharCount(text, hashtags, cta)\<close>. The call-to-action is \<open>None\<close> for \<open>null\<close>; the
  default of the parameter is the empty string.
\<close>

definition getCharCount :: "env \<Rightarrow> jsstring \<Rightarrow> jsstring list \<Rightarrow> jsstring option \<Rightarrow> nat" where
  "getCharCount e txt tags ctaText =
     (if txt = [] then 0
      else
        (let withTags =
               (if length tags > 0
                then (let hashtagText = join (u16 '' '') tags
                      in if \<not> str_includes txt hashtagText
                         then txt @ u16 '' '' @ hashtagText else txt)
                else txt);
             fullText =
               (case ctaText of
                  None \<Rightarrow> withTags
                | Some c \<Rightarrow> if c \<noteq> [] \<and> \<not> str_includes withTags c
                            then withTags @ u16 '' '' @ c else withTags)
         in length (splitGraphemes e fullText)))"

text \<open>The space \<open>truncateSmart\<close> reserves for the hashtags and for the call-to-action.\<close>

definition hashtagSpace :: "jsstring list \<Rightarrow> nat" where
  "hashtagSpace tags = (if length tags > 0 then length (join (u16 '' '') tags) + 1 else 0)"

definition ctaSpace :: "jsstring option \<Rightarrow> nat" where
  "ctaSpace ctaText = (case ctaText of None \<Rightarrow> 0 | Some c \<Rightarrow> if c \<noteq> [] then length c + 1 else 0)"

text \<open>
  The two \<open>for\<close> loops of \<open>truncateSmart\<close>: pieces are appended, joined by \<open>sep\<close>, while
  the count stays within the available space; the first piece that does not fit ends the
  loop.
\<close>

fun accumulate :: "env \<Rightarrow> jsstring \<Rightarrow> int \<Rightarrow> jsstring \<Rightarrow> jsstring list \<Rightarrow> jsstring" where
  "accumulate e sep availableSpace truncated [] = truncated"
| "accumulate e sep availableSpace truncated (piece # pieces) =
     (let testText = (if truncated \<noteq> [] then truncated @ sep @ piece else piece)
      in if int (getCharCount e testText [] (Some [])) \<le> availableSpace
         then accumulate e sep availableSpace testText pieces
         else truncated)"

text \<open>
  \<open>truncateSmart(text, maxLength, hashtags, cta)\<close>. The available space is an integer, so
  the comparisons with \<open>availableSpace * 0.5\<close> and \<open>availableSpace * 0.3\<close> are written
  over the integers.
\<close>

definition truncateSmart ::
  "env \<Rightarrow> jsstring \<Rightarrow> int \<Rightarrow> jsstring list \<Rightarrow> jsstring option \<Rightarrow> jsstring" where
  "truncateSmart e txt maxLength tags ctaText =
     (if txt = [] then []
      else
        (let availableSpace = maxLength - int (hashtagSpace tags) - int (ctaSpace ctaText)
         in if availableSpace \<le> 0 then []
            else if int (getCharCount e txt [] (Some [])) \<le> availableSpace then txt
            else
              (let byWords = accumulate e (u16 '' '') availableSpace []
                               (regexSplit matchSpaces [] txt)
               in if 2 * int (length byWords) > availableSpace then byWords
                  else
                    (let bySentences = accumulate e (u16 ''. '') availableSpace []
                                         (regexSplit matchSentenceEnd [] txt)
                     in if bySentences = [] \<or> 10 * int (length bySentences) < 3 * availableSpace
                        then concat (sliceFromStart (splitGraphemes e txt) (availableSpace - 3))
                               @ u16 ''...''
                        else bySentences))))"

record validation =
  isValid :: bool
  charCount :: nat
  maxLength :: nat
  remaining :: int
  overBy :: nat

definition TWEET_CHAR_LIMIT :: nat where
  "TWEET_CHAR_LIMIT = 280"

definition validateTweetLength :: "env \<Rightarrow> jsstring \<Rightarrow> jsstring list \<Rightarrow> jsstring option \<Rightarrow> validation" where
  "validateTweetLength e txt tags ctaText =
     (let n = getCharCount e txt tags ctaText
      in \<lparr> isValid = (n \<le> TWEET_CHAR_LIMIT), charCount = n, maxLength = TWEET_CHAR_LIMIT,
           remaining = int TWEET_CHAR_LIMIT - int n,
           overBy = (if n > TWEET_CHAR_LIMIT then n - TWEET_CHAR_LIMIT else 0) \<rparr>)"

section \<open>utils/dedupe.js\<close>

text \<open>\<open>tag.replace(/^#+/, '')\<close>: the leading run of number signs is removed.\<close>

definition stripHashes :: "jsstring \<Rightarrow> jsstring" where
  "stripHashes tag = dropWhile (\<lambda>c. c = 0x23) tag"

text \<open>
  The callback of \<open>map\<close> in \<open>dedupeHashtags\<close>: \<open>cleanTag\<close> is its constant \<open>clean\<close>, and
  \<open>None\<close> stands for the \<open>null\<close> that \<open>filter(Boolean)\<close> removes afterwards.
\<close>

definition cleanTag :: "env \<Rightarrow> jsstring \<Rightarrow> jsstring" where
  "cleanTag e tag = toLowerCase e (trim (stripHashes tag))"

definition normalizeTag :: "env \<Rightarrow> jsstring \<Rightarrow> jsstring option" where
  "normalizeTag e tag =
     (let clean = cleanTag e tag
      in if clean \<noteq> [] then Some (0x23 # clean) else None)"

definition dedupeHashtags :: "env \<Rightarrow> jsstring list \<Rightarrow> jsstring list" where
  "dedupeHashtags e tags =
     newSet (List.map_filter (normalizeTag e) (filter (\<lambda>tag. trim tag \<noteq> []) tags))"

definition dedupeEmojis :: "jsstring list \<Rightarrow> jsstring list" where
  "dedupeEmojis emojis = newSet (map trim (filter (\<lambda>emoji. trim emoji \<noteq> []) emojis))"

text \<open>
  The \<open>for\<close> loop of \<open>balanceHashtagsAcrossThread\<close> that fills the hashtags of one
  tweet; \<open>i\<close> is the loop counter and \<open>tweetHashtags\<close> the array built so far. A hashtag
  is truthy when it is not the empty string.
\<close>

function pickLoop ::
  "jsstring list \<Rightarrow> nat \<Rightarrow> nat \<Rightarrow> nat \<Rightarrow> jsstring list \<Rightarrow> jsstring list" where
  "pickLoop uniqueHashtags startIndex maxPerTweet i tweetHashtags =
     (if i < maxPerTweet \<and> length tweetHashtags < maxPerTweet then
        (let hashtagIndex = (startIndex + i) mod length uniqueHashtags;
             hashtag = uniqueHashtags ! hashtagIndex
         in pickLoop uniqueHashtags startIndex maxPerTweet (i + 1)
              (if hashtag \<noteq> [] \<and> hashtag \<notin> set tweetHashtags
               then tweetHashtags @ [hashtag] else tweetHashtags))
      else tweetHashtags)"
  by pat_completeness auto
termination
  by (relation "measure (\<lambda>(u, s, m, i, acc). m - i)") auto

declare pickLoop.simps [simp del]

definition balanceHashtagsAcrossThread :: "env \<Rightarrow> tweet list \<Rightarrow> nat \<Rightarrow> tweet list" where
  "balanceHashtagsAcrossThread e tweets maxPerTweet =
     (if tweets = [] then tweets
      else
        (let allHashtags = concat (map hashtags tweets);
             uniqueHashtags = dedupeHashtags e allHashtags
         in if length uniqueHashtags = 0 then map (\<lambda>tweet. tweet\<lparr>hashtags := []\<rparr>) tweets
            else map (\<lambda>(idx, tweet).
                   tweet\<lparr>hashtags :=
                     pickLoop uniqueHashtags ((idx * maxPerTweet) mod length uniqueHashtags)
                       maxPerTweet 0 []\<rparr>)
                 (enumerate 0 tweets)))"

text \<open>
  The characters a hashtag may continue with, from the class of \<open>hashtagRegex\<close>: the
  letters a to z and A to Z, the digits, the underscore, and the code units U+0600 to
  U+06FF, U+0750 to U+077F, U+08A0 to U+08FF and U+FE70 to U+FEFF.
\<close>

definition isHashtagChar :: "jschar \<Rightarrow> bool" where
  "isHashtagChar c =
     ((0x61 \<le> c \<and> c \<le> 0x7A) \<or> (0x41 \<le> c \<and> c \<le> 0x5A) \<or> (0x30 \<le> c \<and> c \<le> 0x39)
      \<or> c = 0x5F \<or> (0x0600 \<le> c \<and> c \<le> 0x06FF) \<or> (0x0750 \<le> c \<and> c \<le> 0x077F)
      \<or> (0x08A0 \<le> c \<and> c \<le> 0x08FF) \<or> (0xFE70 \<le> c \<and> c \<le> 0xFEFF))"

text \<open>
  \<open>text.match(hashtagRegex)\<close> with the global flag: every match, left to right, each as
  long as possible, the search resuming after the match.
\<close>

function matchAllHashtags :: "jsstring \<Rightarrow> jsstring list" where
  "matchAllHashtags [] = []"
| "matchAllHashtags (c # cs) =
     (if c = 0x23 \<and> takeWhile isHashtagChar cs \<noteq> []
      then (c # takeWhile isHashtagChar cs) # matchAllHashtags (dropWhile isHashtagChar cs)
      else matchAllHashtags cs)"
  by pat_completeness auto
termination
  by (relation "measure length") (auto simp: length_dropWhile_le less_Suc_eq_le)

definition extractHashtagsFromText :: "env \<Rightarrow> jsstring \<Rightarrow> jsstring list" where
  "extractHashtagsFromText e txt =
     (if txt = [] then []
      else (let matches = matchAllHashtags txt
            in if matches \<noteq> [] then dedupeHashtags e matches else []))"

text \<open>
  The emoji expression has the \<open>u\<close> flag, so it walks the string by code points: a high
  surrogate followed by a low one is a single code point. Its alternatives are the ranges
  U+1F300 to U+1F9FF, U+2600 to U+26FF, U+2700 to U+27BF, U+1F1E0 to U+1F1FF and
  U+1F900 to U+1F9FF.
\<close>

definition isHighSurrogate :: "jschar \<Rightarrow> bool" where
  "isHighSurrogate c = (0xD800 \<le> c \<and> c \<le> 0xDBFF)"

definition isLowSurrogate :: "jschar \<Rightarrow> bool" where
  "isLowSurrogate c = (0xDC00 \<le> c \<and> c \<le> 0xDFFF)"

definition codePointOfPair :: "jschar \<Rightarrow> jschar \<Rightarrow> int" where
  "codePointOfPair h l = 0x10000 + (uint h - 0xD800) * 0x400 + (uint l - 0xDC00)"

definition isEmojiCodePoint :: "int \<Rightarrow> bool" where
  "isEmojiCodePoint cp =
     ((0x1F300 \<le> cp \<and> cp \<le> 0x1F9FF) \<or> (0x2600 \<le> cp \<and> cp \<le> 0x26FF)
      \<or> (0x2700 \<le> cp \<and> cp \<le> 0x27BF) \<or> (0x1F1E0 \<le> cp \<and> cp \<le> 0x1F1FF)
      \<or> (0x1F900 \<le> cp \<and> cp \<le> 0x1F9FF))"

fun matchAllEmojis :: "jsstring \<Rightarrow> jsstring list" where
  "matchAllEmojis [] = []"
| "matchAllEmojis [c] = (if isEmojiCodePoint (uint c) then [[c]] else [])"
| "matchAllEmojis (h # l # cs) =
     (if isHighSurrogate h \<and> isLowSurrogate l
      then (if isEmojiCodePoint (codePointOfPair h l)
            then [h, l] # matchAllEmojis cs else matchAllEmojis cs)
      else (if isEmojiCodePoint (uint h)
            then [h] # matchAllEmojis (l # cs) else matchAllEmojis (l # cs)))"

definition extractEmojisFromText :: "jsstring \<Rightarrow> jsstring list" where
  "extractEmojisFromText txt =
     (if txt = [] then []
      else (let matches = matchAllEmojis txt
            in if matches \<noteq> [] then dedupeEmojis matches else []))"

definition dedupeHashtagsAndEmojis :: "env \<Rightarrow> tweet list \<Rightarrow> tweet list" where
  "dedupeHashtagsAndEmojis e tweets =
     (let processedTweets =
            map (\<lambda>tweet.
                  (let textHashtags = extractHashtagsFromText e (tweet_text tweet);
                       textEmojis = extractEmojisFromText (tweet_text tweet);
                       allHashtags = hashtags tweet @ textHashtags;
                       allEmojis = emoji_suggestions tweet @ textEmojis
                   in tweet\<lparr>hashtags := dedupeHashtags e allHashtags,
                            emoji_suggestions := dedupeEmojis allEmojis\<rparr>))
                tweets
      in balanceHashtagsAcrossThread e processedTweets 3)"

section \<open>services/hashtagGenerator.js\<close>

text \<open>\<open>HASHTAG_DICTIONARY[topic].english\<close> and \<open>HASHTAG_DICTIONARY[topic].arabic\<close>.\<close>

fun dictionaryEnglish :: "topic \<Rightarrow> jsstring list" where
  "dictionaryEnglish Ai = [u16 ''#AI'', u16 ''#MachineLearning'', u16 ''#DeepLearning'',
      u16 ''#NeuralNetworks'', u16 ''#ArtificialIntelligence'', u16 ''#MLOps'',
      u16 ''#DataScience'', u16 ''#TechTrends'']"
| "dictionaryEnglish Programming = [u16 ''#Programming'', u16 ''#Coding'', u16 ''#WebDev'',
    u16 ''#JavaScript'', u16 ''#Python'', u16 ''#React'', u16 ''#NodeJS'', u16 ''#FullStack'']"
| "dictionaryEnglish Writing = [u16 ''#Writing'', u16 ''#ContentCreation'',
    u16 ''#Storytelling'', u16 ''#Copywriting'', u16 ''#BlogWriting'', u16 ''#CreativeWriting'',
    u16 ''#WritingTips'']"
| "dictionaryEnglish Education = [u16 ''#Education'', u16 ''#Learning'', u16 ''#OnlineLearning'',
    u16 ''#Skills'', u16 ''#Knowledge'', u16 ''#StudyTips'', u16 ''#PersonalGrowth'']"
| "dictionaryEnglish Business = [u16 ''#Business'', u16 ''#Entrepreneurship'', u16 ''#Startup'',
    u16 ''#Leadership'', u16 ''#Marketing'', u16 ''#Strategy'', u16 ''#Innovation'']"
| "dictionaryEnglish Productivity = [u16 ''#Productivity'', u16 ''#TimeManagement'',
    u16 ''#Efficiency'', u16 ''#WorkLife'', u16 ''#SelfImprovement'', u16 ''#Mindset'',
    u16 ''#Goals'']"
| "dictionaryEnglish Technology = [u16 ''#Technology'', u16 ''#Innovation'',
    u16 ''#DigitalTransformation'', u16 ''#TechNews'', u16 ''#Future'', u16 ''#Automation'',
    u16 ''#CloudComputing'']"
| "dictionaryEnglish Design = [u16 ''#Design'', u16 ''#UXDesign'', u16 ''#UIDesign'',
    u16 ''#CreativeDesign'', u16 ''#GraphicDesign'', u16 ''#UserExperience'',
    u16 ''#DesignThinking'']"
| "dictionaryEnglish Finance = [u16 ''#Finance'', u16 ''#Investment'', u16 ''#Trading'',
    u16 ''#Cryptocurrency'', u16 ''#FinTech'', u16 ''#PersonalFinance'', u16 ''#WealthBuilding'']"
| "dictionaryEnglish Health = [u16 ''#Health'', u16 ''#Wellness'', u16 ''#Fitness'',
    u16 ''#MentalHealth'', u16 ''#Nutrition'', u16 ''#HealthyLifestyle'', u16 ''#SelfCare'']"
| "dictionaryEnglish Social = [u16 ''#SocialMedia'', u16 ''#DigitalMarketing'',
    u16 ''#ContentStrategy'', u16 ''#Branding'', u16 ''#Influence'', u16 ''#OnlinePresence'']"
| "dictionaryEnglish General = [u16 ''#Tips'', u16 ''#Insights'', u16 ''#Thoughts'',
    u16 ''#Wisdom'', u16 ''#Experience'', u16 ''#Advice'', u16 ''#Perspective'']"

fun dictionaryArabic :: "topic \<Rightarrow> jsstring list" where
  "dictionaryArabic Ai = [(u16 ''#'' @ [0x630, 0x643, 0x627, 0x621] @ u16 ''_'' @ [0x627, 0x635,
      0x637, 0x646, 0x627, 0x639, 0x64A]), (u16 ''#'' @ [0x62A, 0x639, 0x644, 0x645]
      @ u16 ''_'' @ [0x622, 0x644, 0x64A]), (u16 ''#'' @ [0x62A, 0x642, 0x646, 0x64A, 0x629]),
      (u16 ''#'' @ [0x627, 0x628, 0x62A, 0x643, 0x627, 0x631])]"
| "dictionaryArabic Programming = [(u16 ''#'' @ [0x628, 0x631, 0x645, 0x62C, 0x629]),
    (u16 ''#'' @ [0x62A, 0x637, 0x648, 0x64A, 0x631]), (u16 ''#'' @ [0x645, 0x637, 0x648,
    0x631]), (u16 ''#'' @ [0x643, 0x648, 0x62F])]"
| "dictionaryArabic Writing = [(u16 ''#'' @ [0x643, 0x62A, 0x627, 0x628, 0x629]), (u16 ''#''
    @ [0x645, 0x62D, 0x62A, 0x648, 0x649]), (u16 ''#'' @ [0x642, 0x635, 0x635]), (u16 ''#''
    @ [0x625, 0x628, 0x62F, 0x627, 0x639])]"
| "dictionaryArabic Education = [(u16 ''#'' @ [0x62A, 0x639, 0x644, 0x64A, 0x645]), (u16 ''#''
    @ [0x62A, 0x639, 0x644, 0x645]), (u16 ''#'' @ [0x645, 0x647, 0x627, 0x631, 0x627, 0x62A]),
    (u16 ''#'' @ [0x645, 0x639, 0x631, 0x641, 0x629])]"
| "dictionaryArabic Business = [(u16 ''#'' @ [0x623, 0x639, 0x645, 0x627, 0x644]), (u16 ''#''
    @ [0x631, 0x64A, 0x627, 0x62F, 0x629]), (u16 ''#'' @ [0x642, 0x64A, 0x627, 0x62F, 0x629]),
    (u16 ''#'' @ [0x62A, 0x633, 0x648, 0x64A, 0x642])]"
| "dictionaryArabic Productivity = [(u16 ''#'' @ [0x625, 0x646, 0x62A, 0x627, 0x62C, 0x64A,
    0x629]), (u16 ''#'' @ [0x62A, 0x637, 0x648, 0x64A, 0x631] @ u16 ''_'' @ [0x627, 0x644, 0x630,
    0x627, 0x62A]), (u16 ''#'' @ [0x623, 0x647, 0x62F, 0x627, 0x641]), (u16 ''#'' @ [0x646,
    0x62C, 0x627, 0x62D])]"
| "dictionaryArabic Technology = [(u16 ''#'' @ [0x62A, 0x642, 0x646, 0x64A, 0x629]), (u16 ''#''
    @ [0x627, 0x628, 0x62A, 0x643, 0x627, 0x631]), (u16 ''#'' @ [0x62A, 0x62D, 0x648, 0x644]
    @ u16 ''_'' @ [0x631, 0x642, 0x645, 0x64A]), (u16 ''#'' @ [0x645, 0x633, 0x62A, 0x642, 0x628,
    0x644])]"
| "dictionaryArabic Design = [(u16 ''#'' @ [0x62A, 0x635, 0x645, 0x64A, 0x645]), (u16 ''#''
    @ [0x625, 0x628, 0x62F, 0x627, 0x639]), (u16 ''#'' @ [0x641, 0x646]), (u16 ''#'' @ [0x62C,
    0x631, 0x627, 0x641, 0x64A, 0x643])]"
| "dictionaryArabic Finance = [(u16 ''#'' @ [0x645, 0x627, 0x644, 0x64A, 0x629]), (u16 ''#''
    @ [0x627, 0x633, 0x62A, 0x62B, 0x645, 0x627, 0x631]), (u16 ''#'' @ [0x62A, 0x62F, 0x627,
    0x648, 0x644]), (u16 ''#'' @ [0x62B, 0x631, 0x648, 0x629])]"
| "dictionaryArabic Health = [(u16 ''#'' @ [0x635, 0x62D, 0x629]), (u16 ''#'' @ [0x644, 0x64A,
    0x627, 0x642, 0x629]), (u16 ''#'' @ [0x639, 0x627, 0x641, 0x64A, 0x629]), (u16 ''#''
    @ [0x62A, 0x63A, 0x630, 0x64A, 0x629])]"
| "dictionaryArabic Social = [(u16 ''#'' @ [0x648, 0x633, 0x627, 0x626, 0x644] @ u16 ''_''
    @ [0x627, 0x644, 0x62A, 0x648, 0x627, 0x635, 0x644]), (u16 ''#'' @ [0x62A, 0x633, 0x648,
    0x64A, 0x642] @ u16 ''_'' @ [0x631, 0x642, 0x645, 0x64A]), (u16 ''#'' @ [0x639, 0x644, 0x627,
    0x645, 0x629] @ u16 ''_'' @ [0x62A, 0x62C, 0x627, 0x631, 0x64A, 0x629]), (u16 ''#'' @ [0x62A,
    0x623, 0x62B, 0x64A, 0x631])]"
| "dictionaryArabic General = [(u16 ''#'' @ [0x646, 0x635, 0x627, 0x626, 0x62D]), (u16 ''#''
    @ [0x62E, 0x628, 0x631, 0x629]), (u16 ''#'' @ [0x62D, 0x643, 0x645, 0x629]), (u16 ''#''
    @ [0x631, 0x623, 0x64A])]"

definition threadHashtagsEnglish :: "jsstring list" where
  "threadHashtagsEnglish = [u16 ''#Thread'', u16 ''#TwitterThread'', u16 ''#TweetThread'']"

definition threadHashtagsArabic :: "jsstring list" where
  "threadHashtagsArabic = [(u16 ''#'' @ [0x62E, 0x64A, 0x637]), (u16 ''#'' @ [0x62E, 0x64A,
      0x637] @ u16 ''_'' @ [0x62A, 0x648, 0x64A, 0x62A, 0x631])]"

record hashtag_options =
  maxHashtags :: nat
  englishRatio :: rat
  includeThreadHashtag :: bool
  forceArabic :: bool

text \<open>
  The \<open>while\<close> loop of \<open>generateTweetHashtags\<close> that fills the remaining slots from
  the general pool: the first general hashtag that is neither chosen nor used is
  appended, until the slots are full or no such hashtag is left.
\<close>

function fillGeneral ::
  "jsstring list \<Rightarrow> jsstring list \<Rightarrow> nat \<Rightarrow> jsstring list \<Rightarrow> jsstring list" where
  "fillGeneral generalHashtags usedHashtags maxH tags =
     (if length tags < maxH
      then (case filter (\<lambda>tag. tag \<notin> set tags \<and> tag \<notin> set usedHashtags) generalHashtags of
              [] \<Rightarrow> tags
            | first # _ \<Rightarrow> fillGeneral generalHashtags usedHashtags maxH (tags
                @ [first]))
      else tags)"
  by pat_completeness auto
termination
proof (relation "measure (\<lambda>(g, u, m, tags).
    length (filter (\<lambda>tag. tag \<notin> set tags \<and> tag \<notin> set u) g))")
  show "wf (measure (\<lambda>(g, u, m, tags).
    length (filter (\<lambda>tag. tag \<notin> set tags \<and> tag \<notin> set u) g)))"
    by simp
next
  fix g u :: "jsstring list" and m :: nat and tags :: "jsstring list" and first rest
  assume "length tags < m"
    and av: "filter (\<lambda>tag. tag \<notin> set tags \<and> tag \<notin> set u) g = first # rest"
  let ?P = "\<lambda>tag. tag \<notin> set tags \<and> tag \<notin> set u"
  have "first \<in> set (filter ?P g)" using av by simp
  then have "length (filter (\<lambda>tag. tag \<noteq> first) (filter ?P g)) < length (filter ?P g)"
    by (intro length_filter_less[where x = first]) simp_all
  moreover have "filter (\<lambda>tag. tag \<notin> set (tags
      @ [first]) \<and> tag \<notin> set u) g
      = filter (\<lambda>tag. tag \<noteq> first) (filter ?P g)"
    by (auto intro: filter_cong)
  ultimately show "((g, u, m, tags @ [first]), (g, u, m, tags)) \<in> measure (\<lambda>(g, u, m,
      tags).
    length (filter (\<lambda>tag. tag \<notin> set tags \<and> tag \<notin> set u) g))"
    by simp
qed

declare fillGeneral.simps [simp del]

text \<open>
  \<open>generateTweetHashtags(text, options, usedHashtags)\<close>. The set of used hashtags is
  passed in and returned with the hashtags of this tweet added. The product
  \<open>maxHashtags * englishRatio\<close> is taken over the rationals; for the two calls of the
  thread generator (3 or 4 hashtags at ratio 0.7) its ceiling is that of the
  floating-point product.
\<close>

definition generateTweetHashtags ::
  "env \<Rightarrow> jsstring \<Rightarrow> hashtag_options \<Rightarrow> jsstring list \<Rightarrow> jsstring list \<times> jsstring list" where
  "generateTweetHashtags e txt options usedHashtags =
     (let langAnalysis = detectLanguagePercentages e txt;
          topics = detectTopics e txt;
          isArabicContent = (arabic langAnalysis > 30);
          englishCount = nat \<lceil>of_nat (maxHashtags options) * englishRatio options\<rceil>;
          arabicCount = int (maxHashtags options) - int englishCount;
          englishHashtags = concat (map dictionaryEnglish topics);
          availableEnglish =
            take englishCount (filter (\<lambda>tag. tag \<notin> set usedHashtags) (newSet englishHashtags));
          withArabic =
            (if (isArabicContent \<or> forceArabic options) \<and> arabicCount > 0
             then availableEnglish
                  @ take (nat arabicCount)
                      (filter (\<lambda>tag. tag \<notin> set usedHashtags)
                         (newSet (concat (map dictionaryArabic topics))))
             else availableEnglish);
          threadHashtag =
            (if isArabicContent then hd threadHashtagsArabic else hd threadHashtagsEnglish);
          withThread =
            (if includeThreadHashtag options \<and> threadHashtag \<notin> set usedHashtags
             then threadHashtag # withArabic else withArabic);
          generalHashtags =
            (if isArabicContent then dictionaryArabic General else dictionaryEnglish General);
          filled = fillGeneral generalHashtags usedHashtags (maxHashtags options) withThread
      in (take (maxHashtags options) filled, usedHashtags @ filled))"

text \<open>
  \<open>generateThreadHashtags\<close>: the callback of \<open>map\<close> runs on the tweets in order and
  shares the set of used hashtags; \<open>n\<close> is the length of the thread and \<open>idx\<close> the index
  of the tweet at the head of the list.
\<close>

fun threadHashtagsLoop ::
  "env \<Rightarrow> hashtag_options \<Rightarrow> nat \<Rightarrow> nat \<Rightarrow> jsstring list \<Rightarrow> tweet list \<Rightarrow> tweet list" where
  "threadHashtagsLoop e options n idx usedHashtags [] = []"
| "threadHashtagsLoop e options n idx usedHashtags (tweet # rest) =
     (let tweetOptions = options\<lparr>includeThreadHashtag := (idx = 0),
                                 maxHashtags := (if int idx = int n - 1 then 4 else 3)\<rparr>;
          (tags, used') = generateTweetHashtags e (tweet_text tweet) tweetOptions usedHashtags
      in tweet\<lparr>hashtags := tags\<rparr> # threadHashtagsLoop e options n (idx + 1) used' rest)"

definition generateThreadHashtags :: "env \<Rightarrow> tweet list \<Rightarrow> hashtag_options \<Rightarrow> tweet list" where
  "generateThreadHashtags e thread options =
     (if thread = [] then thread
      else threadHashtagsLoop e options (length thread) 0 [] thread)"

section \<open>services/localTemplates.js\<close>

text \<open>
  The options of \<open>generateFallbackThread\<close>, after the defaults of the destructuring
  have been applied. The number of tweets is a natural number.
\<close>

record params =
  language :: jsstring
  style :: jsstring
  maxTweets :: nat
  includeHashtags :: bool
  includeImages :: bool

text \<open>
  The loop of \<open>combineSmallSegments\<close>. \<open>totalCount\<close> is the sum of the lengths of the
  segments, so \<open>avgLength\<close> is \<open>totalCount / targetCount\<close> and the test
  \<open>current.length + segment.length + 1 < avgLength * 1.5\<close> is written over the naturals.
  The loop returns the array \<open>combined\<close> and the string \<open>current\<close> it ends with.
\<close>

fun combineLoop ::
  "nat \<Rightarrow> nat \<Rightarrow> jsstring list \<Rightarrow> jsstring list \<Rightarrow> jsstring \<Rightarrow> jsstring list
     \<Rightarrow> jsstring list \<times> jsstring" where
  "combineLoop targetCount totalCount segments combined current [] = (combined, current)"
| "combineLoop targetCount totalCount segments combined current (segment # rest) =
     (if length current = 0
      then combineLoop targetCount totalCount segments combined segment rest
      else if 2 * targetCount * (length current + length segment + 1) < 3 * totalCount
      then combineLoop targetCount totalCount segments combined (current @ u16 '' '' @ segment) rest
      else if int (length (combined @ [current])) \<ge> int targetCount - 1
      then (let remaining = drop (indexOf segment segments + 1) segments
            in (combined @ [current],
                if length remaining > 0 then segment @ u16 '' '' @ join (u16 '' '') remaining
                else segment))
      else combineLoop targetCount totalCount segments (combined @ [current]) segment rest)"

definition combineSmallSegments :: "jsstring list \<Rightarrow> nat \<Rightarrow> jsstring list" where
  "combineSmallSegments segments targetCount =
     (if length segments \<le> targetCount then segments
      else
        (let totalCount = sum_list (map length segments);
             (combined, current) = combineLoop targetCount totalCount segments [] [] segments
         in if current \<noteq> [] then combined @ [current] else combined))"

text \<open>
  The sentence loop of \<open>segmentText\<close>: groups of \<open>sentencesPerTweet\<close> sentences, joined
  and trimmed, the empty ones left out. The loop is entered with a positive step only.
\<close>

function groupSentences :: "nat \<Rightarrow> jsstring list \<Rightarrow> jsstring list" where
  "groupSentences sentencesPerTweet sentences =
     (if sentences = [] \<or> sentencesPerTweet = 0 then []
      else
        (let segment = trim (join (u16 ''. '') (take sentencesPerTweet sentences))
         in (if segment \<noteq> [] then [segment] else [])
            @ groupSentences sentencesPerTweet (drop sentencesPerTweet sentences)))"
  by pat_completeness auto
termination
  by (relation "measure (\<lambda>(n, s). length s)") auto

declare groupSentences.simps [simp del]

text \<open>
  The last loop of \<open>segmentText\<close>: pieces of \<open>avgLength\<close> code units, cut back to
  the last space when it lies in the second half of a piece that is not the last one,
  each trimmed. \<open>rest\<close> is the text from the loop index on. The loop is entered with a
  positive step only.
\<close>

function lengthChunks :: "nat \<Rightarrow> jsstring \<Rightarrow> jsstring list" where
  "lengthChunks avgLength rest =
     (if rest = [] \<or> avgLength = 0 then []
      else
        (let segment = take avgLength rest;
             lastSpace = lastIndexOf 0x20 segment (length segment);
             segment' =
               (if avgLength < length rest \<and> 2 * lastSpace > int (length segment)
                then take (nat lastSpace) segment else segment)
         in trim segment' # lengthChunks avgLength (drop avgLength rest)))"
  by pat_completeness auto
termination
  by (relation "measure (\<lambda>(n, s). length s)") auto

declare lengthChunks.simps [simp del]

definition segmentText :: "jsstring \<Rightarrow> nat \<Rightarrow> jsstring list" where
  "segmentText txt targetCount =
     (if txt = [] \<or> targetCount < 1 then []
      else
        (let paragraphs = filter (\<lambda>p. length (trim p) > 0) (regexSplit matchParagraphBreak [] txt)
         in if length paragraphs \<ge> targetCount
            then combineSmallSegments (take (targetCount * 2) paragraphs) targetCount
            else
              (let sentences =
                     filter (\<lambda>s. length (trim s) > 0) (regexSplit matchSentenceEnd [] txt)
               in if length sentences \<ge> targetCount
                  then (let sentencesPerTweet = (length sentences + targetCount - 1) div targetCount
                        in take targetCount (groupSentences sentencesPerTweet sentences))
                  else (let avgLength = (length txt + targetCount - 1) div targetCount
                        in filter (\<lambda>s. length s > 0) (lengthChunks avgLength txt)))))"

definition getStylePrefixes :: "jsstring \<Rightarrow> jsstring \<Rightarrow> jsstring list" where
  "getStylePrefixes sty lang =
     (let isArabic = (lang = u16 ''arabic'')
      in if sty = u16 ''educational'' then
           (if isArabic then [([0x11F, 0x178, 0x2019, 0xA1] @ u16 '' '' @ [0xD9, 0x2020, 0xD8,
               0xB5, 0xD9, 0x160, 0xD8, 0xAD, 0xD8, 0xA9] @ u16 '':''), ([0x11F, 0x178, 0x201C,
               0x161] @ u16 '' '' @ [0xD8, 0xAA, 0xD8, 0xB9, 0xD9, 0x201E, 0xD9, 0x2026]
               @ u16 '':''), ([0xE2, 0x153, 0xA8] @ u16 '' '' @ [0xD9, 0xD9, 0x192, 0xD8, 0xB1,
               0xD8, 0xA9] @ u16 '':'')]
            else [([0x11F, 0x178, 0x2019, 0xA1] @ u16 '' Tip:''), ([0x11F, 0x178, 0x201C,
                0x161] @ u16 '' Learn:''), ([0xE2, 0x153, 0xA8] @ u16 '' Insight:'')])
         else if sty = u16 ''technical'' then
           (if isArabic then [([0x11F, 0x178, 0x201D, 0xA7] @ u16 '' '' @ [0xD8, 0xAA, 0xD9,
               0x201A, 0xD9, 0x2020, 0xD9, 0x160] @ u16 '':''), ([0xE2, 0x161, 0x2122, 0xEF,
               0xB8] @ u16 '' '' @ [0xD8, 0xB7, 0xD8, 0xB1, 0xD9, 0x160, 0xD9, 0x201A, 0xD8,
               0xA9] @ u16 '':''), ([0x11F, 0x178, 0x203A, 0xA0, 0xEF, 0xB8] @ u16 '' '' @ [0xD8,
               0xAD, 0xD9, 0x201E] @ u16 '':'')]
            else [([0x11F, 0x178, 0x201D, 0xA7] @ u16 '' Technical:''), ([0xE2, 0x161, 0x2122,
                0xEF, 0xB8] @ u16 '' Method:''), ([0x11F, 0x178, 0x203A, 0xA0, 0xEF, 0xB8]
                @ u16 '' Solution:'')])
         else if sty = u16 ''concise'' then
           (if isArabic then [([0x11F, 0x178, 0x201C, 0x152] @ u16 '' '' @ [0xD8, 0xAE, 0xD9,
               0x201E, 0xD8, 0xA7, 0xD8, 0xB5, 0xD8, 0xA9] @ u16 '':''), ([0xE2, 0x161, 0xA1]
               @ u16 '' '' @ [0xD8, 0xB3, 0xD8, 0xB1, 0xD9, 0x160, 0xD8, 0xB9] @ u16 '':''),
               ([0x11F, 0x178, 0xAF] @ u16 '' '' @ [0xD9, 0x2026, 0xD8, 0xA8, 0xD8, 0xA7, 0xD8,
               0xB4, 0xD8, 0xB1] @ u16 '':'')]
            else [([0x11F, 0x178, 0x201C, 0x152] @ u16 '' Summary:''), ([0xE2, 0x161, 0xA1]
                @ u16 '' Quick:''), ([0x11F, 0x178, 0xAF] @ u16 '' Direct:'')])
         else if sty = u16 ''engaging'' then
           (if isArabic then [([0x11F, 0x178, 0x201D, 0xA5] @ u16 '' '' @ [0xD9, 0x2026, 0xD9,
               0x2021, 0xD9, 0x2026] @ u16 '':''), ([0x11F, 0x178, 0x2018, 0x20AC] @ u16 '' ''
               @ [0xD8, 0xA7, 0xD9, 0x2020, 0xD8, 0xAA, 0xD8, 0xA8, 0xD9, 0x2021] @ u16 '':''),
               ([0x11F, 0x178, 0x161, 0x20AC] @ u16 '' '' @ [0xD8, 0xB1, 0xD8, 0xA7, 0xD8, 0xA6,
               0xD8, 0xB9] @ u16 '':'')]
            else [([0x11F, 0x178, 0x201D, 0xA5] @ u16 '' Important:''), ([0x11F, 0x178, 0x2018,
                0x20AC] @ u16 '' Notice:''), ([0x11F, 0x178, 0x161, 0x20AC] @ u16 '' Amazing:'')])
         else if sty = u16 ''professional'' then
           (if isArabic then [([0x11F, 0x178, 0x201C, 0x160] @ u16 '' '' @ [0xD8, 0xAA, 0xD8,
               0xAD, 0xD9, 0x201E, 0xD9, 0x160, 0xD9, 0x201E] @ u16 '':''), ([0x11F, 0x178,
               0x2019, 0xBC] @ u16 '' '' @ [0xD8, 0xAE, 0xD8, 0xA8, 0xD8, 0xB1, 0xD8, 0xA9]
               @ u16 '':''), ([0x11F, 0x178, 0x201C, 0x2C6] @ u16 '' '' @ [0xD8, 0xA7, 0xD8,
               0xB3, 0xD8, 0xAA, 0xD8, 0xB1, 0xD8, 0xA7, 0xD8, 0xAA, 0xD9, 0x160, 0xD8, 0xAC,
               0xD9, 0x160, 0xD8, 0xA9] @ u16 '':'')]
            else [([0x11F, 0x178, 0x201C, 0x160] @ u16 '' Analysis:''), ([0x11F, 0x178, 0x2019,
                0xBC] @ u16 '' Experience:''), ([0x11F, 0x178, 0x201C, 0x2C6]
                @ u16 '' Strategy:'')])
         else [])"

text \<open>
  \<open>generateTweetText\<close>. \<open>Math.floor(Math.random() * prefixes.length)\<close> is some index
  below the length: the environment gives a number, and its remainder is the index.
\<close>

definition generateTweetText ::
  "env \<Rightarrow> jsstring \<Rightarrow> jsstring \<Rightarrow> nat \<Rightarrow> nat \<Rightarrow> lang_analysis \<Rightarrow> jsstring" where
  "generateTweetText e segment sty idx totalCount langAnalysis =
     (let trimmedText = trim segment;
          numbered =
            (if totalCount > 1
             then trimmedText @ u16 '' '' @ (u16 ''('' @ decimal (idx + 1) @ u16 ''/''
                 @ decimal totalCount @ u16 '')'')
             else trimmedText)
      in if idx = 0
         then (let prefixes = getStylePrefixes sty (dominant_language langAnalysis)
               in if length prefixes > 0
                  then (prefixes ! (randomPrefix e mod length prefixes)) @ u16 '' '' @ numbered
                  else numbered)
         else numbered)"

definition styleEmojis :: "jsstring \<Rightarrow> jsstring list" where
  "styleEmojis sty =
     (if sty = u16 ''educational'' then [[0x11F, 0x178, 0x201C, 0x161], [0x11F, 0x178, 0x2019,
         0xA1], [0xE2, 0x153, 0xA8], [0x11F, 0x178, 0xAF], [0x11F, 0x178, 0x201C, 0x2013]]
      else if sty = u16 ''technical'' then [[0x11F, 0x178, 0x201D, 0xA7], [0xE2, 0x161, 0x2122,
          0xEF, 0xB8], [0x11F, 0x178, 0x203A, 0xA0, 0xEF, 0xB8], [0x11F, 0x178, 0x2019, 0xBB],
          [0x11F, 0x178, 0x201D, 0xAC]]
      else if sty = u16 ''concise'' then [[0x11F, 0x178, 0x201C, 0x152], [0xE2, 0x161, 0xA1],
          [0x11F, 0x178, 0xAF], [0xE2, 0x153, 0x2026], [0xE2, 0xAD]]
      else if sty = u16 ''engaging'' then [[0x11F, 0x178, 0x201D, 0xA5], [0x11F, 0x178, 0x2018,
          0x20AC], [0x11F, 0x178, 0x161, 0x20AC], [0x11F, 0x178, 0x2019, 0xAB], [0x11F, 0x178,
          0x2030]]
      else if sty = u16 ''professional'' then [[0x11F, 0x178, 0x201C, 0x160], [0x11F, 0x178,
          0x2019, 0xBC], [0x11F, 0x178, 0x201C, 0x2C6], [0x11F, 0x178, 0x2020], [0xE2, 0x161,
          0xA1]]
      else [])"

definition generateEmojis :: "env \<Rightarrow> jsstring \<Rightarrow> jsstring \<Rightarrow> nat \<Rightarrow> jsstring list" where
  "generateEmojis e segment sty idx =
     (let lowerSegment = toLowerCase e segment;
          important =
            (if str_includes lowerSegment (u16 ''important'') \<or> str_includes lowerSegment ([0xD9, 0x2026, 0xD9, 0x2021, 0xD9, 0x2026])
             then [[0xE2, 0x161, 0xA0, 0xEF, 0xB8], [0x11F, 0x178, 0x161, 0xA8], [0x11F, 0x178,
                 0x201C, 0xA2]] else []);
          success =
            (if str_includes lowerSegment (u16 ''success'') \<or> str_includes lowerSegment ([0xD9, 0x2020, 0xD8, 0xAC, 0xD8, 0xAD])
             then [[0x11F, 0x178, 0x2030], [0x11F, 0x178, 0x2020], [0xE2, 0x153,
                 0x2026]] else []);
          money =
            (if str_includes lowerSegment (u16 ''money'') \<or> str_includes lowerSegment ([0xD9,
                0x2026, 0xD8, 0xA7, 0xD9, 0x201E])
             then [[0x11F, 0x178, 0x2019, 0xB0], [0x11F, 0x178, 0x2019, 0xB5], [0x11F, 0x178,
                 0x201C, 0x2C6]] else []);
          timeEmojis =
            (if str_includes lowerSegment (u16 ''time'') \<or> str_includes lowerSegment ([0xD9,
                0x2C6, 0xD9, 0x201A, 0xD8, 0xAA])
             then [[0xE2, 0xB0], [0xE2, 0x152, 0x161], [0xE2, 0xB3]] else []);
          contentEmojis = important @ success @ money @ timeEmojis;
          contentEmojis' =
            (if idx = 0 then [[0x11F, 0x178, 0xA7, 0xB5], [0x11F, 0x178, 0x2018, 0x2021]]
                @ contentEmojis else contentEmojis);
          allEmojis = styleEmojis sty @ contentEmojis'
      in take 3 (newSet allEmojis))"

definition styleCTAs :: "jsstring \<Rightarrow> bool \<Rightarrow> jsstring list" where
  "styleCTAs sty isArabic =
     (if sty = u16 ''technical'' then
        (if isArabic then [([0xD8, 0xAC, 0xD8, 0xB1, 0xD8, 0xA8] @ u16 '' '' @ [0xD9, 0x2C6,
            0xD8, 0xA3, 0xD8, 0xAE, 0xD8, 0xA8, 0xD8, 0xB1, 0xD9, 0x2020, 0xD8, 0xA7]
            @ u16 '' '' @ [0x11F, 0x178, 0x201D, 0xA7]), ([0xD8, 0xB4, 0xD8, 0xA7, 0xD8, 0xB1,
            0xD9, 0x192] @ u16 '' '' @ [0xD8, 0xAA, 0xD8, 0xAC, 0xD8, 0xB1, 0xD8, 0xA8, 0xD8,
            0xAA, 0xD9, 0x192] @ u16 '' '' @ [0x11F, 0x178, 0x2019, 0xBB]), ([0xD9, 0x2021, 0xD9,
            0x201E] @ u16 '' '' @ [0xD9, 0x2C6, 0xD8, 0xA7, 0xD8, 0xAC, 0xD9, 0x2021, 0xD8,
            0xAA] @ u16 '' '' @ [0xD9, 0x2021, 0xD8, 0xB0, 0xD8, 0xA7, 0xD8, 0x178] @ u16 '' ''
            @ [0xE2, 0x161, 0x2122, 0xEF, 0xB8])]
         else [(u16 ''Try it and let us know '' @ [0x11F, 0x178, 0x201D, 0xA7]),
             (u16 ''Share your experience '' @ [0x11F, 0x178, 0x2019, 0xBB]),
             (u16 ''Have you faced this? '' @ [0xE2, 0x161, 0x2122, 0xEF, 0xB8])])
      else if sty = u16 ''concise'' then
        (if isArabic then [([0xD8, 0xB1, 0xD8, 0xA3, 0xD9, 0x160, 0xD9, 0x192, 0xD8, 0x178]
            @ u16 '' '' @ [0x11F, 0x178, 0x2018, 0x2021]), ([0xD8, 0xAA, 0xD8, 0xAC, 0xD8, 0xB1,
            0xD8, 0xA8, 0xD8, 0xAA, 0xD9, 0x192, 0xD8, 0x178] @ u16 '' '' @ [0x11F, 0x178,
            0x2019, 0xAD]), ([0xD9, 0x2026, 0xD9, 0xD9, 0x160, 0xD8, 0xAF, 0xD8, 0x178]
            @ u16 '' '' @ [0xE2, 0x153, 0xA8])]
         else [(u16 ''Your take? '' @ [0x11F, 0x178, 0x2018, 0x2021]),
             (u16 ''Your experience? '' @ [0x11F, 0x178, 0x2019, 0xAD]), (u16 ''Helpful? ''
             @ [0xE2, 0x153, 0xA8])])
      else if sty = u16 ''engaging'' then
        (if isArabic then [([0xD8, 0xB4, 0xD8, 0xA7, 0xD8, 0xB1, 0xD9, 0x192] @ u16 '' ''
            @ [0xD8, 0xA7, 0xD9, 0x201E, 0xD9, 0x201A, 0xD8, 0xB5, 0xD8, 0xA9] @ u16 ''! ''
            @ [0x11F, 0x178, 0x161, 0x20AC]), ([0xD8, 0xB9, 0xD9, 0x201E, 0xD9, 0x201A]
            @ u16 '' '' @ [0xD8, 0xA8, 0xD8, 0xB1, 0xD8, 0xA3, 0xD9, 0x160, 0xD9, 0x192]
            @ u16 ''! '' @ [0x11F, 0x178, 0x201D, 0xA5]), ([0xD9, 0x2C6, 0xD8, 0xA3, 0xD9,
            0x2020, 0xD8, 0xAA, 0xD8, 0x178] @ u16 '' '' @ [0x11F, 0x178, 0x2018, 0x20AC])]
         else [(u16 ''Share the story! '' @ [0x11F, 0x178, 0x161, 0x20AC]),
             (u16 ''Drop your opinion! '' @ [0x11F, 0x178, 0x201D, 0xA5]),
             (u16 ''What about you? '' @ [0x11F, 0x178, 0x2018, 0x20AC])])
      else if sty = u16 ''professional'' then
        (if isArabic then [([0xD8, 0xB4, 0xD8, 0xA7, 0xD8, 0xB1, 0xD9, 0x192, 0xD9, 0x2020, 0xD8,
            0xA7] @ u16 '' '' @ [0xD8, 0xAE, 0xD8, 0xA8, 0xD8, 0xB1, 0xD8, 0xAA, 0xD9, 0x192]
            @ u16 '' '' @ [0x11F, 0x178, 0x2019, 0xBC]), ([0xD9, 0x2026, 0xD8, 0xA7]
            @ u16 '' '' @ [0xD8, 0xA7, 0xD8, 0xB3, 0xD8, 0xAA, 0xD8, 0xB1, 0xD8, 0xA7, 0xD8,
            0xAA, 0xD9, 0x160, 0xD8, 0xAC, 0xD9, 0x160, 0xD8, 0xAA, 0xD9, 0x192, 0xD8, 0x178]
            @ u16 '' '' @ [0x11F, 0x178, 0x201C, 0x160]), ([0xD8, 0xAA, 0xD8, 0xAC, 0xD8, 0xB1,
            0xD8, 0xA8, 0xD8, 0xAA, 0xD9, 0x192, 0xD8, 0x178] @ u16 '' '' @ [0x11F, 0x178, 0xAF])]
         else [(u16 ''Share your expertise '' @ [0x11F, 0x178, 0x2019, 0xBC]), (u16 ''What''
             @ [0x27] @ u16 ''s your strategy? '' @ [0x11F, 0x178, 0x201C, 0x160]),
             (u16 ''Your experience? '' @ [0x11F, 0x178, 0xAF])])
      else
        (if isArabic then [([0xD8, 0xB4, 0xD8, 0xA7, 0xD8, 0xB1, 0xD9, 0x192, 0xD9, 0x2020, 0xD8,
            0xA7] @ u16 '' '' @ [0xD8, 0xB1, 0xD8, 0xA3, 0xD9, 0x160, 0xD9, 0x192] @ u16 '' ''
            @ [0x11F, 0x178, 0x2018, 0x2021]), ([0xD9, 0x2026, 0xD8, 0xA7] @ u16 '' '' @ [0xD8,
            0xB1, 0xD8, 0xA3, 0xD9, 0x160, 0xD9, 0x192] @ u16 '' '' @ [0xD9, 0xD9, 0x160]
            @ u16 '' '' @ [0xD9, 0x2021, 0xD8, 0xB0, 0xD8, 0xA7, 0xD8, 0x178] @ u16 '' ''
            @ [0x11F, 0x178, 0x2019, 0xAD]), ([0xD9, 0x2021, 0xD9, 0x201E] @ u16 '' '' @ [0xD8,
            0xAA, 0xD8, 0xB7, 0xD8, 0xA8, 0xD9, 0x201A] @ u16 '' '' @ [0xD9, 0x2021, 0xD8, 0xB0,
            0xD8, 0xA7, 0xD8, 0x178] @ u16 '' '' @ [0x11F, 0x178, 0xA4, 0x201D])]
         else [(u16 ''Share your thoughts '' @ [0x11F, 0x178, 0x2018, 0x2021]),
             (u16 ''What do you think? '' @ [0x11F, 0x178, 0x2019, 0xAD]),
             (u16 ''Do you apply this? '' @ [0x11F, 0x178, 0xA4, 0x201D])]))"

text \<open>
  \<open>generateCTA\<close>: the pool of the style, the educational pool for any other style, and
  a random element of it.
\<close>

definition generateCTA :: "env \<Rightarrow> jsstring \<Rightarrow> lang_analysis \<Rightarrow> jsstring" where
  "generateCTA e sty langAnalysis =
     (let pool = styleCTAs sty (dominant_language langAnalysis = u16 ''arabic'')
      in pool ! (randomCTA e mod length pool))"

datatype exn = TypeError

text \<open>\<open>result.reduce(...)\<close>: the first index of a tweet with the longest text.\<close>

definition longestIndex :: "tweet list \<Rightarrow> nat" where
  "longestIndex result =
     fold (\<lambda>(idx, tw) maxIdx.
             if length (tweet_text tw) > length (tweet_text (result ! maxIdx)) then idx else maxIdx)
          (enumerate 0 result) 0"

text \<open>
  The \<open>while\<close> loop of \<open>ensureExactTweetCount\<close>. On an empty array \<open>reduce\<close> gives 0,
  \<open>result[0]\<close> is \<open>undefined\<close>, and reading its \<open>text\<close> throws a \<open>TypeError\<close>. The
  text is not empty when \<open>splitPoint\<close> is looked up, since it has 100 code units at least.
\<close>

function splitLoop :: "tweet list \<Rightarrow> nat \<Rightarrow> exn + tweet list" where
  "splitLoop result targetCount =
     (if length result < targetCount then
        (if result = [] then Inl TypeError
         else
           (let longestIdx = longestIndex result;
                longestTweet = result ! longestIdx;
                txt = tweet_text longestTweet
            in if length txt < 100 then Inr result
               else
                 (let midPoint = length txt div 2;
                      splitPoint = lastIndexOf 0x20 txt midPoint
                  in if splitPoint > 0
                     then (let firstPart = trim (take (nat splitPoint) txt);
                               secondPart = trim (drop (nat splitPoint) txt)
                           in splitLoop
                                (take longestIdx result
                                 @ [longestTweet\<lparr>tweet_text := firstPart\<rparr>,
                                    longestTweet\<lparr>tweet_text := secondPart, hashtags := [],
                                                 emoji_suggestions := []\<rparr>]
                                 @ drop (longestIdx + 1) result)
                                targetCount)
                     else Inr result)))
      else Inr result)"
  by pat_completeness auto
termination
  by (relation "measure (\<lambda>(result, targetCount). targetCount - length result)") auto

declare splitLoop.simps [simp del]

definition reindex :: "tweet list \<Rightarrow> tweet list" where
  "reindex tweets = map (\<lambda>(idx, tw). tw\<lparr>index := idx + 1\<rparr>) (enumerate 0 tweets)"

definition ensureExactTweetCount :: "tweet list \<Rightarrow> nat \<Rightarrow> exn + tweet list" where
  "ensureExactTweetCount tweets targetCount =
     (if length tweets = targetCount then Inr tweets
      else if length tweets > targetCount then
        (let toRemove = length tweets - targetCount;
             startRemove = (length tweets - toRemove) div 2
         in Inr (reindex (take startRemove tweets @ drop (startRemove + toRemove) tweets)))
      else
        (case splitLoop tweets targetCount of
           Inl err \<Rightarrow> Inl err
         | Inr result \<Rightarrow> Inr (reindex (take targetCount result))))"

definition detectTone :: "env \<Rightarrow> jsstring \<Rightarrow> jsstring \<Rightarrow> jsstring" where
  "detectTone e txt sty =
     (let lowerText = toLowerCase e txt
      in if str_includes lowerText (u16 ''warning'') \<or> str_includes lowerText (u16 ''careful'')
            \<or> str_includes lowerText ([0xD8, 0xAA, 0xD8, 0xAD, 0xD8, 0xB0, 0xD9, 0x160, 0xD8,
                0xB1])
         then sty @ u16 '' + warning''
         else if str_includes lowerText (u16 ''exciting'') \<or> str_includes lowerText (u16 ''amazing'')
            \<or> str_includes lowerText ([0xD8, 0xB1, 0xD8, 0xA7, 0xD8, 0xA6, 0xD8, 0xB9])
         then sty @ u16 '' + excitement''
         else if str_includes lowerText (u16 ''important'') \<or> str_includes lowerText (u16 ''critical'')
            \<or> str_includes lowerText ([0xD9, 0x2026, 0xD9, 0x2021, 0xD9, 0x2026])
         then sty @ u16 '' + urgent''
         else sty)"

definition generateThreadSummary :: "tweet list \<Rightarrow> jsstring \<Rightarrow> jsstring" where
  "generateThreadSummary tweets sty =
     (if sty = u16 ''educational'' then u16 ''Introduction '' @ [0xE2, 0x2020, 0x2019]
         @ u16 '' Key Points '' @ [0xE2, 0x2020, 0x2019] @ u16 '' Examples '' @ [0xE2, 0x2020,
         0x2019] @ u16 '' Conclusion''
      else if sty = u16 ''technical'' then u16 ''Problem '' @ [0xE2, 0x2020, 0x2019]
          @ u16 '' Solution '' @ [0xE2, 0x2020, 0x2019] @ u16 '' Implementation '' @ [0xE2,
          0x2020, 0x2019] @ u16 '' Results''
      else if sty = u16 ''concise'' then u16 ''Hook '' @ [0xE2, 0x2020, 0x2019]
          @ u16 '' Main Points '' @ [0xE2, 0x2020, 0x2019] @ u16 '' Summary''
      else if sty = u16 ''engaging'' then u16 ''Hook '' @ [0xE2, 0x2020, 0x2019]
          @ u16 '' Story '' @ [0xE2, 0x2020, 0x2019] @ u16 '' Insights '' @ [0xE2, 0x2020,
          0x2019] @ u16 '' CTA''
      else if sty = u16 ''professional'' then u16 ''Analysis '' @ [0xE2, 0x2020, 0x2019]
          @ u16 '' Strategy '' @ [0xE2, 0x2020, 0x2019] @ u16 '' Application '' @ [0xE2, 0x2020,
          0x2019] @ u16 '' Recommendations''
      else u16 ''Hook '' @ [0xE2, 0x2020, 0x2019] @ u16 '' Content '' @ [0xE2, 0x2020, 0x2019]
          @ u16 '' Conclusion'')"

text \<open>
  \<open>calculateEngagementScore\<close>, with the decimal fractions of the source as rational
  numbers.
\<close>

definition calculateEngagementScore :: "tweet list \<Rightarrow> lang_analysis \<Rightarrow> jsstring \<Rightarrow> rat" where
  "calculateEngagementScore tweets langAnalysis sty =
     (let n = length tweets;
          lengthFactor = (if n \<ge> 3 \<and> n \<le> 7 then 1 else if n > 10 then - 3 / 2 else 0);
          ctaFactor = (if list_ex (\<lambda>t. truthy (cta t)) tweets then 1 / 2 else 0);
          emojiCount = sum_list (map (\<lambda>t. length (emoji_suggestions t)) tweets);
          emojiFactor = (if emojiCount > 0 \<and> emojiCount \<le> n * 2 then 1 / 2 else 0);
          hashtagCount = sum_list (map (\<lambda>t. length (hashtags t)) tweets);
          hashtagFactor = (if hashtagCount > 0 \<and> hashtagCount \<le> n * 3 then 1 / 2 else 0);
          styleFactor =
            (if sty = u16 ''engaging'' then 1 / 2
             else if sty = u16 ''educational'' then 3 / 10
             else if sty = u16 ''professional'' then 1 / 5
             else if sty = u16 ''technical'' then 1 / 10
             else if sty = u16 ''concise'' then 1 / 5
             else 0);
          score = 5 + lengthFactor + ctaFactor + emojiFactor + hashtagFactor + styleFactor
      in min (max score 0) 10)"

record publishing =
  best_time :: jsstring
  thread_timing :: jsstring
  engagement_tips :: "jsstring list"

definition generatePublishingRecommendations :: "lang_analysis \<Rightarrow> jsstring \<Rightarrow> publishing" where
  "generatePublishingRecommendations langAnalysis sty =
     (let isArabic = (dominant_language langAnalysis = u16 ''arabic'');
          bestTime = (if isArabic then u16 ''21:00 GMT+3'' else u16 ''09:00 GMT-5'');
          languageTips =
            (if isArabic
             then [u16 ''Post during evening hours (8-10 PM) for better Arabic audience engagement'',
                   u16 ''Use RTL formatting for optimal display'']
             else [u16 ''Post during business hours or early evening for English audience'',
                   u16 ''Consider time zones of your target audience'']);
          styleTips =
            (if sty = u16 ''educational''
             then [u16 ''Pin the thread for reference'', u16 ''Encourage saves and bookmarks'']
             else [])
      in \<lparr> best_time = bestTime, thread_timing = u16 ''2 minutes'',
           engagement_tips = languageTips @ styleTips \<rparr>)"

text \<open>\<open>getLanguageCode\<close> and \<open>detectTextDirection\<close> of \<open>utils/langDetect.js\<close>.\<close>

definition getLanguageCode :: "env \<Rightarrow> jsstring \<Rightarrow> jsstring" where
  "getLanguageCode e txt =
     (let analysis = detectLanguagePercentages e txt
      in if is_mixed analysis then u16 ''mixed''
         else if dominant_language analysis = u16 ''arabic'' then u16 ''ar''
         else if dominant_language analysis = u16 ''english'' then u16 ''en''
         else u16 ''unknown'')"

definition detectTextDirection :: "env \<Rightarrow> jsstring \<Rightarrow> jsstring" where
  "detectTextDirection e txt =
     (let analysis = detectLanguagePercentages e txt
      in if is_mixed analysis then u16 ''mixed'' else direction analysis)"

record metadata =
  md_language :: jsstring
  style_requested :: jsstring
  tone_detected :: jsstring
  max_tweets_requested :: nat
  tweets_generated :: nat
  md_direction :: jsstring

record thread_result =
  metadata :: metadata
  thread :: "tweet list"
  thread_summary :: jsstring
  estimated_engagement_score :: rat
  publishing_recommendations :: publishing

record error_result =
  error :: jsstring
  code :: nat

datatype fallback_result = ThreadResult thread_result | ErrorResult error_result

text \<open>How a call ends: it returns a value, or it throws.\<close>

datatype 'a completion = Returns 'a | Throws exn

text \<open>
  The tweets built from the segments, the callback of \<open>segments.map\<close>. The array of
  warnings of a tweet is an object of its own; \<open>warnings_id\<close> is its identity, the
  index of the segment.
\<close>

definition buildTweet ::
  "env \<Rightarrow> params \<Rightarrow> lang_analysis \<Rightarrow> nat \<Rightarrow> nat \<times> jsstring \<Rightarrow> tweet" where
  "buildTweet e ps langAnalysis totalCount = (\<lambda>(idx, segment).
     (let tweetText = generateTweetText e segment (style ps) idx totalCount langAnalysis
      in \<lparr> index = idx + 1,
           tweet_text = tweetText,
           char_count = getCharCount e tweetText [] (Some []),
           warnings = [],
           warnings_id = idx,
           hashtags = [],
           emoji_suggestions = generateEmojis e segment (style ps) idx,
           cta = (if int idx = int totalCount - 1 then Some (generateCTA e (style ps) langAnalysis)
                  else None),
           image_suggestion =
             (if includeImages ps then Some (generateImageSuggestion e segment (style ps))
              else None) \<rparr>))"

text \<open>
  The last \<open>map\<close> of \<open>generateFallbackThread\<close>, which validates each tweet and
  truncates the ones that are too long. It writes into the tweet objects: \<open>fixTweet\<close> is what it
  does to the text and the count of one tweet. The warning is pushed onto the array the
  tweet holds, which the two halves of a split tweet share, so that after the pass the
  array of a tweet has one warning for every truncated tweet that holds the same array.
\<close>

definition truncationWarning :: jsstring where
  "truncationWarning = u16 ''Tweet truncated to fit character limit''"

definition needsTruncation :: "env \<Rightarrow> tweet \<Rightarrow> bool" where
  "needsTruncation e tw =
     (\<not> isValid (validateTweetLength e (tweet_text tw) (hashtags tw) (cta tw)))"

definition fixTweet :: "env \<Rightarrow> tweet \<Rightarrow> tweet" where
  "fixTweet e tw =
     (if needsTruncation e tw
      then (let newText = truncateSmart e (tweet_text tw) 280 (hashtags tw) (cta tw)
            in tw\<lparr>tweet_text := newText,
                  char_count := getCharCount e newText (hashtags tw) (cta tw)\<rparr>)
      else tw)"

definition validateAndFix :: "env \<Rightarrow> tweet list \<Rightarrow> tweet list" where
  "validateAndFix e tweets =
     (let pushed = map warnings_id (filter (needsTruncation e) tweets)
      in map (\<lambda>tw. (fixTweet e tw)\<lparr>warnings :=
                     warnings tw
                         @ replicate (count_list pushed (warnings_id tw)) truncationWarning\<rparr>)
             tweets)"

text \<open>
  The first steps of \<open>generateFallbackThread\<close>: the text is segmented, a tweet is built
  from every segment, and \<open>ensureExactTweetCount\<close> adjusts their number.
\<close>

definition exactTweets :: "env \<Rightarrow> jsstring \<Rightarrow> params \<Rightarrow> exn + tweet list" where
  "exactTweets e txt ps =
     (let langAnalysis = detectLanguagePercentages e txt;
          segments = segmentText txt (maxTweets ps);
          tweets = map (buildTweet e ps langAnalysis (length segments)) (enumerate 0 segments)
      in ensureExactTweetCount tweets (maxTweets ps))"

text \<open>The thread up to the validation pass: hashtags are generated and deduplicated.\<close>

definition decoratedTweets :: "env \<Rightarrow> jsstring \<Rightarrow> params \<Rightarrow> exn + tweet list" where
  "decoratedTweets e txt ps =
     (case exactTweets e txt ps of
        Inl err \<Rightarrow> Inl err
      | Inr exact \<Rightarrow>
          (let tagged =
                 (if includeHashtags ps
                  then generateThreadHashtags e exact
                         \<lparr> maxHashtags = 4, englishRatio = 7 / 10,
                           includeThreadHashtag = False, forceArabic = False \<rparr>
                  else exact)
           in Inr (dedupeHashtagsAndEmojis e tagged)))"

text \<open>The body of the \<open>try\<close> block.\<close>

definition tryBlock :: "env \<Rightarrow> jsstring \<Rightarrow> params \<Rightarrow> exn + thread_result" where
  "tryBlock e txt ps =
     (let langAnalysis = detectLanguagePercentages e txt;
          detectedLanguage = getLanguageCode e txt;
          dir = detectTextDirection e txt
      in case decoratedTweets e txt ps of
           Inl err \<Rightarrow> Inl err
         | Inr deduped \<Rightarrow>
             (let tweets = validateAndFix e deduped
              in Inr \<lparr> metadata =
                         \<lparr> md_language = (if language ps = u16 ''auto'' then detectedLanguage
                                          else language ps),
                           style_requested = style ps,
                           tone_detected = detectTone e txt (style ps),
                           max_tweets_requested = maxTweets ps,
                           tweets_generated = length tweets,
                           md_direction = dir \<rparr>,
                       thread = tweets,
                       thread_summary = generateThreadSummary tweets (style ps),
                       estimated_engagement_score =
                         calculateEngagementScore tweets langAnalysis (style ps),
                       publishing_recommendations =
                         generatePublishingRecommendations langAnalysis (style ps) \<rparr>))"

text \<open>
  \<open>generateFallbackThread\<close>: the whole body is the \<open>try\<close> block, and the \<open>catch\<close> clause
  returns the error object with the code \<open>INTERNAL_ERROR\<close>.
\<close>

definition generateFallbackThread :: "env \<Rightarrow> jsstring \<Rightarrow> params \<Rightarrow> fallback_result completion" where
  "generateFallbackThread e txt ps =
     (case tryBlock e txt ps of
        Inr result \<Rightarrow> Returns (ThreadResult result)
      | Inl err \<Rightarrow>
          Returns (ErrorResult \<lparr> error = u16 ''Failed to generate thread using local fallback'',
                                 code = 500 \<rparr>))"

section \<open>Concrete collaborators for evaluation\<close>

text \<open>
  On text of Basic Latin characters, and more generally on text without combining marks,
  surrogate pairs or line breaks, every code unit is a grapheme cluster of its own; on
  Basic Latin text lower-casing maps A to Z onto a to z and leaves every
  other character alone, and the language analysis finds English text, written left to
  right. \<open>asciiEnv\<close> is the environment that behaves so, with \<open>general\<close> as the only topic
  and the first element as every random choice; the evaluations below use it on such
  text.
\<close>

definition asciiLower :: "jschar \<Rightarrow> jschar" where
  "asciiLower c = (if 0x41 \<le> c \<and> c \<le> 0x5A then c + 0x20 else c)"

definition englishAnalysis :: lang_analysis where
  "englishAnalysis =
     \<lparr> arabic = 0, dominant_language = u16 ''english'', direction = u16 ''ltr'',
       is_mixed = False \<rparr>"

definition noImage :: image_suggestion_obj where
  "noImage = \<lparr> img_type = [], img_content = [], img_keywords = [], img_template = [] \<rparr>"

definition asciiEnv :: env where
  "asciiEnv =
     \<lparr> splitGraphemes = map (\<lambda>c. [c]),
       toLowerCase = map asciiLower,
       detectLanguagePercentages = (\<lambda>txt. englishAnalysis),
       detectTopics = (\<lambda>txt. [General]),
       randomPrefix = 0,
       randomCTA = 0,
       generateImageSuggestion = (\<lambda>segment sty. noImage) \<rparr>"

definition plainTweet :: "nat \<Rightarrow> jsstring \<Rightarrow> jsstring list \<Rightarrow> tweet" where
  "plainTweet i txt tags =
     \<lparr> index = i, tweet_text = txt, char_count = length txt, warnings = [], warnings_id = i,
       hashtags = tags, emoji_suggestions = [], cta = None, image_suggestion = None \<rparr>"

text \<open>
  The thread of a result, and the empty list for the error object; the options with the
  defaults of the source, for a given number of tweets and without hashtag generation.
\<close>

definition resultThread :: "fallback_result completion \<Rightarrow> tweet list" where
  "resultThread r = (case r of Returns (ThreadResult res) \<Rightarrow> thread res | _ \<Rightarrow> [])"

definition plainParams :: "nat \<Rightarrow> params" where
  "plainParams n =
     \<lparr> language = u16 ''auto'', style = u16 ''professional'', maxTweets = n,
       includeHashtags = False, includeImages = False \<rparr>"

text \<open>The tweets of a result of the first steps, and the empty list when they throw.\<close>

definition okTweets :: "exn + tweet list \<Rightarrow> tweet list" where
  "okTweets r = (case r of Inr ts \<Rightarrow> ts | Inl err \<Rightarrow> [])"

text \<open>
  A string is inked when it has a character that is not white space, and tidy when it
  is not empty and neither begins nor ends with white space.
\<close>

definition inked :: "jsstring \<Rightarrow> bool" where
  "inked s = (list_ex (\<lambda>c. \<not> isWhiteSpace c) s)"

definition tidy :: "jsstring \<Rightarrow> bool" where
  "tidy s = (s \<noteq> [] \<and> \<not> isWhiteSpace (hd s) \<and> \<not> isWhiteSpace (last s))"

text \<open>A string is trimmed when \<open>trim\<close> has nothing to remove at either end.\<close>

definition trimmed :: "jsstring \<Rightarrow> bool" where
  "trimmed s = (s = [] \<or> (\<not> isWhiteSpace (hd s) \<and> \<not> isWhiteSpace (last s)))"




text \<open>
  The styles that \<open>validateParameters\<close> admits. The generator looks its tables up by
  style: for these five names the lookup finds the entry of the table, and for any other
  string that is not the name of a property every object inherits it finds nothing and
  the default is taken, as in the functions above.
\<close>

definition validStyles :: "jsstring list" where
  "validStyles = [u16 ''educational'', u16 ''technical'', u16 ''concise'', u16 ''engaging'',
     u16 ''professional'']"




section \<open>Auxiliary facts\<close>

lemma set_setAddAll: "set (setAddAll seen xs) = set seen \<union> set xs"
  by (induction xs arbitrary: seen) auto

lemma distinct_setAddAll: "distinct seen \<Longrightarrow> distinct (setAddAll seen xs)"
  by (induction xs arbitrary: seen) auto

lemma setAddAll_distinct_id: "distinct (seen @ xs) \<Longrightarrow> setAddAll seen xs = seen @ xs"
  by (induction xs arbitrary: seen) auto

lemma set_newSet: "set (newSet xs) = set xs"
  by (simp add: newSet_def set_setAddAll)

lemma distinct_newSet: "distinct (newSet xs)"
  by (simp add: newSet_def distinct_setAddAll)

lemma newSet_distinct_id: "distinct xs \<Longrightarrow> newSet xs = xs"
  by (simp add: newSet_def setAddAll_distinct_id)

lemma newSet_idem: "newSet (newSet xs) = newSet xs"
  by (simp add: newSet_distinct_id distinct_newSet)

lemma dropWhile_id_hd: "xs = [] \<or> \<not> P (hd xs) \<Longrightarrow> dropWhile P xs = xs"
  by (cases xs) auto

lemma trimmed_trim_id: "trimmed s \<Longrightarrow> trim s = s"
proof (cases "s = []")
  case True
  then show ?thesis by (simp add: trim_def)
next
  case False
  assume "trimmed s"
  with False have h: "\<not> isWhiteSpace (hd s)" and l: "\<not> isWhiteSpace (last s)"
    by (simp_all add: trimmed_def)
  have 1: "dropWhile isWhiteSpace s = s"
    using h by (intro dropWhile_id_hd) simp
  have "hd (rev s) = last s" using False by (simp add: hd_rev)
  then have 2: "dropWhile isWhiteSpace (rev s) = rev s"
    using l by (intro dropWhile_id_hd) simp
  show ?thesis by (simp add: trim_def 1 2)
qed

lemma hd_dropWhile_not: "dropWhile P xs \<noteq> [] \<Longrightarrow> \<not> P (hd (dropWhile P xs))"
  by (simp add: hd_dropWhile)

lemma last_dropWhile: "dropWhile P xs \<noteq> [] \<Longrightarrow> last (dropWhile P xs) = last xs"
  by (induction xs) auto

lemma trimmed_trim: "trimmed (trim s)"
proof (cases "trim s = []")
  case True
  then show ?thesis by (simp add: trimmed_def)
next
  case False
  let ?a = "dropWhile isWhiteSpace s"
  let ?b = "dropWhile isWhiteSpace (rev ?a)"
  from False have b: "?b \<noteq> []" by (simp add: trim_def)
  have a: "?a \<noteq> []"
  proof
    assume "?a = []"
    then have "rev ?a = []" by simp
    then have "?b = []" by (simp only: dropWhile.simps)
    with b show False by simp
  qed
  have "last (trim s) = hd ?b" using b by (simp add: trim_def last_rev)
  then have l: "\<not> isWhiteSpace (last (trim s))" using hd_dropWhile_not[OF b] by simp
  have "hd (trim s) = last ?b" using b by (simp add: trim_def hd_rev)
  also have "\<dots> = last (rev ?a)" using b by (rule last_dropWhile)
  also have "\<dots> = hd ?a" using a by (simp add: last_rev)
  finally have h: "\<not> isWhiteSpace (hd (trim s))" using hd_dropWhile_not[OF a] by simp
  show ?thesis using h l by (simp add: trimmed_def)
qed

lemma trim_idem: "trim (trim s) = trim s"
  by (rule trimmed_trim_id[OF trimmed_trim])

lemma trim_eq_iff_trimmed: "trim s = s \<longleftrightarrow> trimmed s"
  using trimmed_trim[of s] trimmed_trim_id[of s] by auto

lemma ex_dropWhile_not: "(\<exists>x\<in>set (dropWhile P xs). \<not> P x) = (\<exists>x\<in>set xs. \<not> P x)"
  by (induction xs) auto

lemma dropWhile_nonempty_iff: "dropWhile P xs \<noteq> [] \<longleftrightarrow> (\<exists>x\<in>set xs. \<not> P x)"
  by (induction xs) auto

lemma trim_nonempty_iff: "trim s \<noteq> [] \<longleftrightarrow> (\<exists>c\<in>set s. \<not> isWhiteSpace c)"
  unfolding trim_def by (simp add: dropWhile_nonempty_iff ex_dropWhile_not)

lemma dedupeEmojis_idem: "dedupeEmojis (dedupeEmojis Y) = dedupeEmojis Y"
proof -
  let ?P = "\<lambda>emoji. trim emoji \<noteq> []"
  let ?ys = "map trim (filter ?P Y)"
  have a: "\<And>y. y \<in> set (newSet ?ys) \<Longrightarrow> trim y = y \<and> trim y \<noteq> []"
    by (auto simp: set_newSet trim_idem)
  have f: "filter ?P (newSet ?ys) = newSet ?ys"
    by (rule filter_True) (use a in blast)
  have m: "map trim (newSet ?ys) = newSet ?ys"
    by (rule map_idI) (use a in blast)
  show ?thesis
    by (simp only: dedupeEmojis_def f m newSet_idem)
qed

lemma map_filter_fix:
  "(\<And>y. y \<in> set ys \<Longrightarrow> P y \<and> f y = Some y) \<Longrightarrow> List.map_filter f (filter P ys) = ys"
  by (induction ys) (auto simp: List.map_filter_simps)

lemma set_map_filter: "set (List.map_filter f xs) = {y. \<exists>x\<in>set xs. f x = Some y}"
  by (induction xs) (auto simp: List.map_filter_simps split: option.splits)

lemma hash_not_ws: "\<not> isWhiteSpace 0x23"
  by (simp add: isWhiteSpace_def)

lemma trimmed_hash_Cons: "trimmed c \<Longrightarrow> c \<noteq> [] \<Longrightarrow> trimmed (0x23 # c)"
  by (simp add: trimmed_def hash_not_ws)

lemma normalizeTag_fix:
  assumes lower_idem: "\<And>s. toLowerCase e (toLowerCase e s) = toLowerCase e s"
      and lower_trim: "\<And>s. trim s = s \<Longrightarrow> trim (toLowerCase e s) = toLowerCase e s"
      and y: "normalizeTag e tag = Some y"
      and nh: "take 1 (cleanTag e tag) \<noteq> [0x23]"
  shows "trim y \<noteq> [] \<and> normalizeTag e y = Some y"
proof -
  let ?c = "cleanTag e tag"
  from y have c: "?c \<noteq> []" and yc: "y = 0x23 # ?c"
    by (auto simp: normalizeTag_def Let_def split: if_splits)
  have tc: "trim ?c = ?c"
    unfolding cleanTag_def by (rule lower_trim) (rule trim_idem)
  have lc: "toLowerCase e ?c = ?c"
    unfolding cleanTag_def by (rule lower_idem)
  from tc have "trimmed ?c" by (simp add: trim_eq_iff_trimmed)
  then have "trimmed y" using c yc by (simp add: trimmed_hash_Cons)
  then have 1: "trim y \<noteq> []" using yc by (simp add: trimmed_trim_id)
  from nh c have "hd ?c \<noteq> 0x23" by (cases ?c) auto
  then have "stripHashes y = ?c" using c yc by (cases ?c) (auto simp: stripHashes_def)
  then have "cleanTag e y = ?c"
    using tc lc by (simp add: cleanTag_def[of e y])
  then have "normalizeTag e y = Some y"
    using c yc by (simp add: normalizeTag_def Let_def)
  with 1 show ?thesis by simp
qed

lemma dedupeHashtags_idem:
  assumes lower_idem: "\<And>s. toLowerCase e (toLowerCase e s) = toLowerCase e s"
      and lower_trim: "\<And>s. trim s = s \<Longrightarrow> trim (toLowerCase e s) = toLowerCase e s"
      and nh: "\<forall>tag\<in>set X. take 1 (cleanTag e tag) \<noteq> [0x23]"
  shows "dedupeHashtags e (dedupeHashtags e X) = dedupeHashtags e X"
proof -
  let ?P = "\<lambda>tag. trim tag \<noteq> []"
  let ?D = "dedupeHashtags e X"
  have a: "\<And>y. y \<in> set ?D \<Longrightarrow> ?P y \<and> normalizeTag e y = Some y"
  proof -
    fix y assume "y \<in> set ?D"
    then obtain tag where t: "tag \<in> set X" and n: "normalizeTag e tag = Some y"
      by (auto simp: dedupeHashtags_def set_newSet set_map_filter)
    from t nh have "take 1 (cleanTag e tag) \<noteq> [0x23]" by blast
    from normalizeTag_fix[OF lower_idem lower_trim n this]
    show "?P y \<and> normalizeTag e y = Some y" .
  qed
  have "List.map_filter (normalizeTag e) (filter ?P ?D) = ?D"
    by (rule map_filter_fix) (rule a)
  then have "dedupeHashtags e ?D = newSet ?D"
    by (simp only: dedupeHashtags_def[of e ?D])
  also have "\<dots> = ?D"
    by (simp only: dedupeHashtags_def[of e X] newSet_idem)
  finally show ?thesis .
qed

lemma upper_shift:
  fixes c :: jschar
  assumes "0x41 \<le> c" "c \<le> 0x5A"
  shows "0x61 \<le> c + 0x20 \<and> c + 0x20 \<le> 0x7A"
proof -
  from assms have b: "65 \<le> unat c" "unat c \<le> 90"
    by (simp_all add: word_le_nat_alt)
  have "unat c + unat (0x20 :: jschar) < 2 ^ LENGTH(16)" using b by simp
  then have "unat (c + 0x20) = unat c + unat (0x20 :: jschar)"
    by (simp only: unat_add_lem)
  then have "unat (c + 0x20) = unat c + 32" by simp
  then show ?thesis using b by (simp add: word_le_nat_alt)
qed

lemma asciiLower_cases: "asciiLower c = c \<or> (0x61 \<le> asciiLower c \<and> asciiLower c \<le> 0x7A \<and> 0x41 \<le> c \<and> c \<le> 0x5A)"
  using upper_shift[of c] by (simp add: asciiLower_def)

lemma letter_not_upper: "0x61 \<le> (c::jschar) \<Longrightarrow> \<not> c \<le> 0x5A"
  by (simp add: word_le_nat_alt)

lemma letter_not_ws: "0x41 \<le> (c::jschar) \<Longrightarrow> c \<le> 0x7A \<Longrightarrow> \<not> isWhiteSpace c"
  by (auto simp: isWhiteSpace_def word_le_nat_alt)

lemma asciiLower_idem: "asciiLower (asciiLower c) = asciiLower c"
  using asciiLower_cases[of c] letter_not_upper[of "asciiLower c"]
  by (cases "asciiLower c = c") (simp_all add: asciiLower_def[of "asciiLower c"])

lemma asciiLower_ws: "isWhiteSpace (asciiLower c) = isWhiteSpace c"
proof (cases "asciiLower c = c")
  case True
  then show ?thesis by simp
next
  case False
  with asciiLower_cases[of c] have a: "0x61 \<le> asciiLower c" "asciiLower c \<le> 0x7A" "0x41 \<le> c" "c \<le> 0x5A"
    by simp_all
  have "\<not> isWhiteSpace (asciiLower c)"
    by (rule letter_not_ws) (use a in \<open>simp_all add: word_le_nat_alt\<close>)
  moreover have "\<not> isWhiteSpace c"
    by (rule letter_not_ws) (use a in \<open>simp_all add: word_le_nat_alt\<close>)
  ultimately show ?thesis by simp
qed

lemma asciiLower_trimmed: "trimmed s \<Longrightarrow> trimmed (map asciiLower s)"
  by (cases "s = []") (simp_all add: trimmed_def hd_map last_map asciiLower_ws)

lemma asciiEnv_lower_idem: "toLowerCase asciiEnv (toLowerCase asciiEnv s) = toLowerCase asciiEnv s"
  by (simp add: asciiEnv_def asciiLower_idem)

lemma asciiEnv_lower_trim: "trim s = s \<Longrightarrow> trim (toLowerCase asciiEnv s) = toLowerCase asciiEnv s"
  by (simp add: asciiEnv_def trim_eq_iff_trimmed asciiLower_trimmed)

lemma map_enumerate_update:
  "map (\<lambda>t. t\<lparr>hashtags := []\<rparr>) (map (\<lambda>(idx, tweet). tweet\<lparr>hashtags := f idx\<rparr>) (enumerate n tweets))
   = map (\<lambda>t. t\<lparr>hashtags := []\<rparr>) tweets"
  by (induction tweets arbitrary: n) simp_all

lemma balance_frame:
  "map (\<lambda>t. t\<lparr>hashtags := []\<rparr>) (balanceHashtagsAcrossThread e tweets maxPerTweet)
   = map (\<lambda>t. t\<lparr>hashtags := []\<rparr>) tweets"
proof (cases "tweets = [] \<or> dedupeHashtags e (concat (map hashtags tweets)) = []")
  case True
  then show ?thesis
    unfolding balanceHashtagsAcrossThread_def Let_def by auto
next
  case False
  then show ?thesis
    unfolding balanceHashtagsAcrossThread_def Let_def
    by (simp add: map_enumerate_update del: map_map)
qed

lemma balance_length: "length (balanceHashtagsAcrossThread e tweets maxPerTweet) = length tweets"
  unfolding balanceHashtagsAcrossThread_def Let_def by simp

lemma balance_nth_hashtags:
  assumes "i < length tweets" "dedupeHashtags e (concat (map hashtags tweets)) \<noteq> []"
  shows "hashtags (balanceHashtagsAcrossThread e tweets maxPerTweet ! i) =
     pickLoop (dedupeHashtags e (concat (map hashtags tweets)))
       ((i * maxPerTweet) mod length (dedupeHashtags e (concat (map hashtags tweets)))) maxPerTweet 0 []"
  using assms unfolding balanceHashtagsAcrossThread_def Let_def
  by (auto simp: nth_enumerate_eq)

lemma balance_nth_hashtags_empty:
  assumes "i < length tweets" "dedupeHashtags e (concat (map hashtags tweets)) = []"
  shows "hashtags (balanceHashtagsAcrossThread e tweets maxPerTweet ! i) = []"
  using assms unfolding balanceHashtagsAcrossThread_def Let_def
  by auto

lemma pickLoop_distinct:
  "distinct acc \<Longrightarrow> distinct (pickLoop U s m i acc)"
proof (induction U s m i acc rule: pickLoop.induct)
  case (1 U s m i acc)
  show ?case
  proof (cases "i < m \<and> length acc < m")
    case True
    then show ?thesis
      using 1 by (subst pickLoop.simps) (auto simp: Let_def)
  next
    case False
    then show ?thesis using 1(2) by (subst pickLoop.simps) auto
  qed
qed

lemma pickLoop_window:
  assumes "distinct U" "[] \<notin> set U" "s + m \<le> length U" "i \<le> m" "acc = take i (drop s U)"
  shows "pickLoop U s m i acc = take m (drop s U)"
  using assms
proof (induction U s m i acc rule: pickLoop.induct)
  case (1 U s m i acc)
  show ?case
  proof (cases "i < m")
    case False
    with 1 have "i = m" by simp
    then show ?thesis using 1 by (subst pickLoop.simps) simp
  next
    case True
    have len: "length acc = i" using 1 True by simp
    have idx: "(s + i) mod length U = s + i" using 1 True by simp
    have lt: "s + i < length U" using 1 True by simp
    let ?h = "U ! (s + i)"
    have ne: "?h \<noteq> []" using 1(3) lt by (metis nth_mem)
    have notin: "?h \<notin> set acc"
    proof
      assume "?h \<in> set acc"
      then obtain k where k: "k < i" "acc ! k = ?h"
        using len by (auto simp: in_set_conv_nth)
      then have "U ! (s + k) = U ! (s + i)" using 1(6) lt by simp
      then have "s + k = s + i"
        using 1(2) lt k by (simp add: nth_eq_iff_index_eq)
      with k show False by simp
    qed
    have nxt: "acc @ [?h] = take (i + 1) (drop s U)"
      using 1(6) lt by (simp add: take_Suc_conv_app_nth)
    have "pickLoop U s m i acc = pickLoop U s m (i + 1) (acc @ [?h])"
      using True len ne notin idx by (subst pickLoop.simps) (simp add: Let_def)
    also have "\<dots> = take m (drop s U)"
      using 1(1)[OF _ refl refl] True len 1(2,3,4) nxt ne notin idx
      by (simp add: Let_def)
    finally show ?thesis .
  qed
qed

lemma dedupeHashtags_distinct: "distinct (dedupeHashtags e X)"
  by (simp add: dedupeHashtags_def distinct_newSet)

lemma dedupeHashtags_nonempty: "[] \<notin> set (dedupeHashtags e X)"
  by (auto simp: dedupeHashtags_def set_newSet set_map_filter normalizeTag_def Let_def split: if_splits)

lemma windows_disjoint:
  assumes "distinct U" "a + m \<le> b" "b + m \<le> length U"
  shows "set (take m (drop a U)) \<inter> set (take m (drop b U)) = {}"
proof -
  have "U = take a U @ take m (drop a U) @ take (b - (a + m)) (drop (a + m) U) @ take m (drop b U) @ drop (b + m) U"
    using assms(2,3)
    by (metis append_take_drop_id drop_drop add.commute le_add_diff_inverse)
  then have "distinct (take a U @ take m (drop a U) @ take (b - (a + m)) (drop (a + m) U) @ take m (drop b U) @ drop (b + m) U)"
    using assms(1) by simp
  then show ?thesis by auto
qed

lemma pickLoop_subset:
  "U \<noteq> [] \<Longrightarrow> set (pickLoop U s m i acc) \<subseteq> set acc \<union> set U"
proof (induction U s m i acc rule: pickLoop.induct)
  case (1 U s m i acc)
  show ?case
  proof (cases "i < m \<and> length acc < m")
    case False
    then show ?thesis by (subst pickLoop.simps) auto
  next
    case True
    let ?h = "U ! ((s + i) mod length U)"
    let ?acc = "if ?h \<noteq> [] \<and> ?h \<notin> set acc then acc @ [?h] else acc"
    have eq: "pickLoop U s m i acc = pickLoop U s m (i + 1) ?acc"
      using True by (subst pickLoop.simps) (simp add: Let_def)
    have "set (pickLoop U s m (i + 1) ?acc) \<subseteq> set ?acc \<union> set U"
      by (rule "1.IH"[OF _ refl refl]) (use True "1.prems" in simp_all)
    moreover have "?h \<in> set U"
      using "1.prems" by simp
    ultimately show ?thesis unfolding eq by (auto split: if_splits)
  qed
qed

lemma balance_subset_pool:
  assumes "i < length tweets"
  shows "set (hashtags (balanceHashtagsAcrossThread e tweets maxPerTweet ! i))
       \<subseteq> set (dedupeHashtags e (concat (map hashtags tweets)))"
proof (cases "dedupeHashtags e (concat (map hashtags tweets)) = []")
  case True
  then show ?thesis using assms by (simp add: balance_nth_hashtags_empty)
next
  case False
  let ?U = "dedupeHashtags e (concat (map hashtags tweets))"
  have "set (pickLoop ?U ((i * maxPerTweet) mod length ?U) maxPerTweet 0 []) \<subseteq> set [] \<union> set ?U"
    using False by (rule pickLoop_subset)
  then show ?thesis
    using assms False by (simp add: balance_nth_hashtags)
qed

lemma balance_disjoint:
  assumes pool: "dedupeHashtags e (concat (map hashtags tweets)) = []
             \<or> maxPerTweet * length tweets \<le> length (dedupeHashtags e (concat (map hashtags tweets)))"
      and ij: "i < j" "j < length tweets"
  shows "set (hashtags (balanceHashtagsAcrossThread e tweets maxPerTweet ! i))
       \<inter> set (hashtags (balanceHashtagsAcrossThread e tweets maxPerTweet ! j)) = {}"
proof (cases "dedupeHashtags e (concat (map hashtags tweets)) = []")
  case True
  then show ?thesis using ij by (simp add: balance_nth_hashtags_empty)
next
  case False
  let ?U = "dedupeHashtags e (concat (map hashtags tweets))"
  let ?n = "length tweets"
  from False pool have big: "maxPerTweet * ?n \<le> length ?U" by simp
  have "Suc j \<le> ?n" using ij by simp
  then have "maxPerTweet * Suc j \<le> maxPerTweet * ?n" by (rule mult_le_mono2)
  then have j_end: "j * maxPerTweet + maxPerTweet \<le> length ?U" using big by (simp add: mult.commute)
  have "Suc i \<le> j" using ij by simp
  then have "maxPerTweet * Suc i \<le> maxPerTweet * j" by (rule mult_le_mono2)
  then have i_end: "i * maxPerTweet + maxPerTweet \<le> j * maxPerTweet" by (simp add: mult.commute)
  have i_len: "i * maxPerTweet + maxPerTweet \<le> length ?U" using i_end j_end by simp
  have U_pos: "0 < length ?U" using False by simp
  have mi: "(i * maxPerTweet) mod length ?U = i * maxPerTweet \<or> maxPerTweet = 0"
    using i_len by (cases "maxPerTweet = 0") simp_all
  have mj: "(j * maxPerTweet) mod length ?U = j * maxPerTweet \<or> maxPerTweet = 0"
    using j_end by (cases "maxPerTweet = 0") simp_all
  show ?thesis
  proof (cases "maxPerTweet = 0")
    case True
    then show ?thesis using ij False
      by (simp add: balance_nth_hashtags pickLoop.simps)
  next
    case m: False
    have hi: "hashtags (balanceHashtagsAcrossThread e tweets maxPerTweet ! i) = take maxPerTweet (drop (i * maxPerTweet) ?U)"
      using ij False mi m i_len
      by (simp add: balance_nth_hashtags pickLoop_window dedupeHashtags_distinct dedupeHashtags_nonempty)
    have hj: "hashtags (balanceHashtagsAcrossThread e tweets maxPerTweet ! j) = take maxPerTweet (drop (j * maxPerTweet) ?U)"
      using ij False mj m j_end
      by (simp add: balance_nth_hashtags pickLoop_window dedupeHashtags_distinct dedupeHashtags_nonempty)
    show ?thesis
      unfolding hi hj
      by (rule windows_disjoint) (use i_end j_end in \<open>simp_all add: dedupeHashtags_distinct\<close>)
  qed
qed

lemma pool_normal:
  assumes lower_idem: "\<And>s. toLowerCase e (toLowerCase e s) = toLowerCase e s"
      and lower_trim: "\<And>s. trim s = s \<Longrightarrow> trim (toLowerCase e s) = toLowerCase e s"
      and nh: "\<forall>tag\<in>set X. take 1 (cleanTag e tag) \<noteq> [0x23]"
      and y: "y \<in> set (dedupeHashtags e X)"
  shows "normalizeTag e y = Some y"
proof -
  from y obtain tag where t: "tag \<in> set X" and n: "normalizeTag e tag = Some y"
    by (auto simp: dedupeHashtags_def set_newSet set_map_filter)
  from t nh have "take 1 (cleanTag e tag) \<noteq> [0x23]" by blast
  from normalizeTag_fix[OF lower_idem lower_trim n this] show ?thesis by simp
qed

section \<open>Auxiliary facts about segmentation and the thread pipeline\<close>

lemma length_setAddAll_le: "length (setAddAll seen xs) \<le> length seen + length xs"
proof (induction xs arbitrary: seen)
  case Nil
  then show ?case by simp
next
  case (Cons a xs)
  show ?case
  proof (cases "a \<in> set seen")
    case True
    then show ?thesis using Cons[of seen] by simp
  next
    case False
    then show ?thesis using Cons[of "seen @ [a]"] by simp
  qed
qed

lemma length_newSet_le: "length (newSet xs) \<le> length xs"
  using length_setAddAll_le[of "[]" xs] by (simp add: newSet_def)

lemma length_dedupeEmojis_le: "length (dedupeEmojis xs) \<le> length xs"
proof -
  have "length (dedupeEmojis xs) \<le> length (filter (\<lambda>emoji. trim emoji \<noteq> []) xs)"
    unfolding dedupeEmojis_def using length_newSet_le[of "map trim (filter (\<lambda>emoji. trim emoji \<noteq> []) xs)"]
    by simp
  also have "\<dots> \<le> length xs" by (rule length_filter_le)
  finally show ?thesis .
qed

lemma length_generateEmojis: "length (generateEmojis e segment sty idx) \<le> 3"
  by (simp add: generateEmojis_def Let_def)

lemma buildTweet_emojis:
  "length (emoji_suggestions (buildTweet e ps la n (idx, segment))) \<le> 3"
  by (simp add: buildTweet_def Let_def length_generateEmojis)

lemma fold_longest_range:
  "fold (\<lambda>(idx, tw) maxIdx. if length (tweet_text tw) > length (tweet_text (result ! maxIdx)) then idx else maxIdx)
     (enumerate k xs) a < k + length xs \<or>
   fold (\<lambda>(idx, tw) maxIdx. if length (tweet_text tw) > length (tweet_text (result ! maxIdx)) then idx else maxIdx)
     (enumerate k xs) a = a"
proof (induction xs arbitrary: k a)
  case Nil
  then show ?case by simp
next
  case (Cons x xs)
  let ?f = "\<lambda>(idx, tw) maxIdx. if length (tweet_text tw) > length (tweet_text (result ! maxIdx)) then idx else maxIdx"
  let ?a' = "if length (tweet_text x) > length (tweet_text (result ! a)) then k else a"
  have step: "fold ?f (enumerate k (x # xs)) a = fold ?f (enumerate (Suc k) xs) ?a'"
    by simp
  from Cons.IH[of "Suc k" ?a'] show ?case
    unfolding step by (auto split: if_splits)
qed

lemma longestIndex_lt: "result \<noteq> [] \<Longrightarrow> longestIndex result < length result"
  using fold_longest_range[of result 0 result 0]
  unfolding longestIndex_def by auto

lemma inked_iff: "inked s \<longleftrightarrow> trim s \<noteq> []"
  by (simp add: inked_def trim_nonempty_iff list_ex_iff)


lemma inked_trim: "inked (trim s) = inked s"
  by (simp add: inked_iff trim_idem)

lemma inked_nonempty: "inked s \<Longrightarrow> s \<noteq> []"
  by (auto simp: inked_def)







lemma splitLoop_invariant:
  assumes "splitLoop ts n = Inr rs" "\<forall>t\<in>set ts. P t"
    and step: "\<And>lt sp. P lt \<Longrightarrow> 100 \<le> length (tweet_text lt)
        \<Longrightarrow> sp = lastIndexOf 0x20 (tweet_text lt) (length (tweet_text lt) div 2) \<Longrightarrow> 0 < sp
        \<Longrightarrow> P (lt\<lparr>tweet_text := trim (take (nat sp) (tweet_text lt))\<rparr>)
          \<and> P (lt\<lparr>tweet_text := trim (drop (nat sp) (tweet_text lt)), hashtags := [],
                  emoji_suggestions := []\<rparr>)"
  shows "\<forall>t\<in>set rs. P t"
  using assms(1,2)
proof (induction ts n arbitrary: rs rule: splitLoop.induct)
  case (1 result targetCount)
  show ?case
  proof (cases "length result < targetCount \<and> result \<noteq> [] \<and> \<not> length (tweet_text (result ! longestIndex result)) < 100
      \<and> lastIndexOf 0x20 (tweet_text (result ! longestIndex result)) (length (tweet_text (result ! longestIndex result)) div 2) > 0")
    case False
    then have "rs = result"
      using "1.prems"(1) by (subst (asm) splitLoop.simps) (auto simp: Let_def split: if_splits)
    then show ?thesis using "1.prems"(2) by simp
  next
    case True
    let ?li = "longestIndex result"
    let ?lt = "result ! ?li"
    let ?txt = "tweet_text ?lt"
    let ?sp = "lastIndexOf 0x20 ?txt (length ?txt div 2)"
    let ?new = "take ?li result
                 @ [?lt\<lparr>tweet_text := trim (take (nat ?sp) ?txt)\<rparr>,
                    ?lt\<lparr>tweet_text := trim (drop (nat ?sp) ?txt), hashtags := [], emoji_suggestions := []\<rparr>]
                 @ drop (?li + 1) result"
    have eq: "splitLoop result targetCount = splitLoop ?new targetCount"
      using True by (subst splitLoop.simps) (simp add: Let_def)
    have li: "?li < length result" using True by (simp add: longestIndex_lt)
    then have mem: "?lt \<in> set result" by simp
    then have Plt: "P ?lt" using "1.prems"(2) by blast
    have two: "P (?lt\<lparr>tweet_text := trim (take (nat ?sp) ?txt)\<rparr>)
          \<and> P (?lt\<lparr>tweet_text := trim (drop (nat ?sp) ?txt), hashtags := [], emoji_suggestions := []\<rparr>)"
      by (rule step[OF Plt _ refl]) (use True in simp_all)
    have P: "\<forall>t\<in>set ?new. P t"
      using "1.prems"(2) two by (auto dest: in_set_takeD in_set_dropD)
    show ?thesis
      by (rule "1.IH"[OF _ _ refl refl refl _ refl refl _ refl refl _ P])
         (use True eq "1.prems"(1) in auto)
  qed
qed

lemma splitLoop_length:
  assumes "splitLoop ts n = Inr rs"
  shows "length ts \<le> length rs \<and> ts \<noteq> [] \<or> n \<le> length ts \<and> rs = ts"
  using assms
proof (induction ts n arbitrary: rs rule: splitLoop.induct)
  case (1 result targetCount)
  show ?case
  proof (cases "length result < targetCount \<and> result \<noteq> [] \<and> \<not> length (tweet_text (result ! longestIndex result)) < 100
      \<and> lastIndexOf 0x20 (tweet_text (result ! longestIndex result)) (length (tweet_text (result ! longestIndex result)) div 2) > 0")
    case False
    then show ?thesis
      using "1.prems"(1) by (subst (asm) splitLoop.simps) (auto simp: Let_def split: if_splits)
  next
    case True
    let ?li = "longestIndex result"
    let ?lt = "result ! ?li"
    let ?txt = "tweet_text ?lt"
    let ?sp = "lastIndexOf 0x20 ?txt (length ?txt div 2)"
    let ?new = "take ?li result
                 @ [?lt\<lparr>tweet_text := trim (take (nat ?sp) ?txt)\<rparr>,
                    ?lt\<lparr>tweet_text := trim (drop (nat ?sp) ?txt), hashtags := [], emoji_suggestions := []\<rparr>]
                 @ drop (?li + 1) result"
    have eq: "splitLoop result targetCount = splitLoop ?new targetCount"
      using True by (subst splitLoop.simps) (simp add: Let_def)
    have li: "?li < length result" using True by (simp add: longestIndex_lt)
    then have len: "length ?new = length result + 1" by simp
    have "length ?new \<le> length rs \<and> ?new \<noteq> [] \<or> targetCount \<le> length ?new \<and> rs = ?new"
      by (rule "1.IH"[OF _ _ refl refl refl _ refl refl _ refl refl])
         (use True eq "1.prems"(1) in auto)
    then show ?thesis using len True by auto
  qed
qed

lemma splitLoop_Inl: "splitLoop ts n = Inl err \<Longrightarrow> ts = []"
proof (induction ts n rule: splitLoop.induct)
  case (1 result targetCount)
  show ?case
  proof (cases "length result < targetCount \<and> result \<noteq> [] \<and> \<not> length (tweet_text (result ! longestIndex result)) < 100
      \<and> lastIndexOf 0x20 (tweet_text (result ! longestIndex result)) (length (tweet_text (result ! longestIndex result)) div 2) > 0")
    case False
    then show ?thesis
      using "1.prems"(1) by (subst (asm) splitLoop.simps) (auto simp: Let_def split: if_splits)
  next
    case True
    let ?li = "longestIndex result"
    let ?lt = "result ! ?li"
    let ?txt = "tweet_text ?lt"
    let ?sp = "lastIndexOf 0x20 ?txt (length ?txt div 2)"
    let ?new = "take ?li result
                 @ [?lt\<lparr>tweet_text := trim (take (nat ?sp) ?txt)\<rparr>,
                    ?lt\<lparr>tweet_text := trim (drop (nat ?sp) ?txt), hashtags := [], emoji_suggestions := []\<rparr>]
                 @ drop (?li + 1) result"
    have eq: "splitLoop result targetCount = splitLoop ?new targetCount"
      using True by (subst splitLoop.simps) (simp add: Let_def)
    have "?new = []"
      by (rule "1.IH"[OF _ _ refl refl refl _ refl refl _ refl refl])
         (use True eq "1.prems"(1) in auto)
    then show ?thesis by simp
  qed
qed

lemma splitLoop_empty: "0 < n \<Longrightarrow> splitLoop [] n = Inl TypeError"
  by (subst splitLoop.simps) simp

lemma tidy_inked: "tidy s \<Longrightarrow> inked s"
  unfolding tidy_def inked_def list_ex_iff by (cases s) auto



lemma tidy_append: "tidy a \<Longrightarrow> tidy b \<Longrightarrow> tidy (a @ m @ b)"
  by (simp add: tidy_def)







lemma reindex_length: "length (reindex ts) = length ts"
  by (simp add: reindex_def)

lemma reindex_set: "t \<in> set (reindex ts) \<Longrightarrow> \<exists>t'\<in>set ts. \<exists>i. t = t'\<lparr>index := i\<rparr>"
  by (auto simp: reindex_def in_set_enumerate_eq)

lemma reindex_invariant:
  assumes "\<forall>t\<in>set ts. P t" "\<And>t i. P t \<Longrightarrow> P (t\<lparr>index := i\<rparr>)"
  shows "\<forall>t\<in>set (reindex ts). P t"
proof
  fix t assume "t \<in> set (reindex ts)"
  then obtain t' i where "t' \<in> set ts" "t = t'\<lparr>index := i\<rparr>"
    using reindex_set by blast
  then show "P t" using assms by simp
qed

lemma take_drop_invariant:
  assumes "\<forall>t\<in>set ts. P t"
  shows "\<forall>t\<in>set (take k ts @ drop j ts). P t"
  using assms by (auto dest: in_set_takeD in_set_dropD)

lemma ensureExact_invariant:
  assumes r: "ensureExactTweetCount ts n = Inr rs" and P: "\<forall>t\<in>set ts. P t"
    and idx: "\<And>t i. P t \<Longrightarrow> P (t\<lparr>index := i\<rparr>)"
    and step: "\<And>lt sp. P lt \<Longrightarrow> 100 \<le> length (tweet_text lt)
        \<Longrightarrow> sp = lastIndexOf 0x20 (tweet_text lt) (length (tweet_text lt) div 2) \<Longrightarrow> 0 < sp
        \<Longrightarrow> P (lt\<lparr>tweet_text := trim (take (nat sp) (tweet_text lt))\<rparr>)
          \<and> P (lt\<lparr>tweet_text := trim (drop (nat sp) (tweet_text lt)), hashtags := [],
                  emoji_suggestions := []\<rparr>)"
  shows "\<forall>t\<in>set rs. P t"
proof (cases "length ts = n")
  case True
  then show ?thesis using r P by (simp add: ensureExactTweetCount_def)
next
  case ne: False
  show ?thesis
  proof (cases "length ts > n")
    case True
    then have "rs = reindex (take (n div 2) ts @ drop (n div 2 + (length ts - n)) ts)"
      using r ne by (simp add: ensureExactTweetCount_def Let_def)
    then show ?thesis
      using reindex_invariant[OF take_drop_invariant[OF P, of "n div 2" "n div 2 + (length ts - n)"] idx]
      by simp
  next
    case False
    then obtain res where s: "splitLoop ts n = Inr res" and rs: "rs = reindex (take n res)"
      using r ne by (auto simp: ensureExactTweetCount_def split: sum.splits)
    from splitLoop_invariant[OF s P step] have "\<forall>t\<in>set res. P t" by blast
    then have "\<forall>t\<in>set (take n res @ drop (length res) res). P t"
      by (rule take_drop_invariant)
    then have "\<forall>t\<in>set (take n res). P t" by simp
    from reindex_invariant[OF this idx] show ?thesis using rs by simp
  qed
qed

lemma ensureExact_length:
  assumes r: "ensureExactTweetCount ts n = Inr rs" and n: "1 \<le> n"
  shows "ts \<noteq> [] \<and> 1 \<le> length rs \<and> length rs \<le> n \<and> (n \<le> length ts \<longrightarrow> length rs = n)"
proof (cases "length ts = n")
  case True
  then show ?thesis using r n by (auto simp: ensureExactTweetCount_def)
next
  case ne: False
  show ?thesis
  proof (cases "length ts > n")
    case True
    then have "rs = reindex (take (n div 2) ts @ drop (n div 2 + (length ts - n)) ts)"
      using r ne by (simp add: ensureExactTweetCount_def Let_def)
    then have "length rs = n" using True by (simp add: reindex_length)
    then show ?thesis using n True by auto
  next
    case False
    then obtain res where s: "splitLoop ts n = Inr res" and rs: "rs = reindex (take n res)"
      using r ne by (auto simp: ensureExactTweetCount_def split: sum.splits)
    from splitLoop_length[OF s] False ne have "length ts \<le> length res" "ts \<noteq> []" by auto
    moreover from this have "1 \<le> length ts" by (cases ts) simp_all
    ultimately show ?thesis using rs n False ne by (auto simp: reindex_length)
  qed
qed

lemma ensureExact_Inl:
  assumes "ensureExactTweetCount ts n = Inl err"
  shows "ts = []"
  using assms splitLoop_Inl
  by (auto simp: ensureExactTweetCount_def Let_def split: if_splits sum.splits)

lemma ensureExact_empty: "1 \<le> n \<Longrightarrow> ensureExactTweetCount [] n = Inl TypeError"
  by (simp add: ensureExactTweetCount_def splitLoop_empty)













































lemma threadHashtagsLoop_frame:
  "map (\<lambda>t. t\<lparr>hashtags := []\<rparr>) (threadHashtagsLoop e opts n idx used ts) = map (\<lambda>t. t\<lparr>hashtags := []\<rparr>) ts"
  by (induction ts arbitrary: idx used) (simp_all add: Let_def split: prod.splits)

lemma generateThreadHashtags_frame:
  "map (\<lambda>t. t\<lparr>hashtags := []\<rparr>) (generateThreadHashtags e ts opts) = map (\<lambda>t. t\<lparr>hashtags := []\<rparr>) ts"
  by (simp add: generateThreadHashtags_def threadHashtagsLoop_frame)

lemma frame_emojis:
  assumes "map (\<lambda>t. t\<lparr>hashtags := []\<rparr>) xs = map (\<lambda>t. t\<lparr>hashtags := []\<rparr>) ys"
  shows "map emoji_suggestions xs = map emoji_suggestions ys \<and> map tweet_text xs = map tweet_text ys
       \<and> map cta xs = map cta ys"
proof -
  have "map emoji_suggestions (map (\<lambda>t. t\<lparr>hashtags := []\<rparr>) xs) = map emoji_suggestions (map (\<lambda>t. t\<lparr>hashtags := []\<rparr>) ys)"
       "map tweet_text (map (\<lambda>t. t\<lparr>hashtags := []\<rparr>) xs) = map tweet_text (map (\<lambda>t. t\<lparr>hashtags := []\<rparr>) ys)"
       "map cta (map (\<lambda>t. t\<lparr>hashtags := []\<rparr>) xs) = map cta (map (\<lambda>t. t\<lparr>hashtags := []\<rparr>) ys)"
    using assms by simp_all
  then show ?thesis by (simp add: o_def)
qed

lemma dedupe_emojis:
  "map emoji_suggestions (dedupeHashtagsAndEmojis e ts)
     = map (\<lambda>t. dedupeEmojis (emoji_suggestions t @ extractEmojisFromText (tweet_text t))) ts
   \<and> map tweet_text (dedupeHashtagsAndEmojis e ts) = map tweet_text ts"
  unfolding dedupeHashtagsAndEmojis_def Let_def
  using frame_emojis[OF balance_frame] by (simp add: o_def)

lemma validateAndFix_emojis:
  "map emoji_suggestions (validateAndFix e ts) = map emoji_suggestions ts"
  by (simp add: validateAndFix_def Let_def fixTweet_def o_def)

lemma validateAndFix_length: "length (validateAndFix e ts) = length ts"
  by (simp add: validateAndFix_def Let_def)

lemma exactTweets_emojis:
  assumes "exactTweets e txt ps = Inr ts"
  shows "\<forall>t\<in>set ts. length (emoji_suggestions t) \<le> 3"
proof -
  let ?segs = "segmentText txt (maxTweets ps)"
  let ?ts = "map (buildTweet e ps (detectLanguagePercentages e txt) (length ?segs)) (enumerate 0 ?segs)"
  have ex: "ensureExactTweetCount ?ts (maxTweets ps) = Inr ts"
    using assms by (simp add: exactTweets_def Let_def)
  have init: "\<forall>t\<in>set ?ts. length (emoji_suggestions t) \<le> 3"
    by (auto simp: buildTweet_emojis)
  show ?thesis
    by (rule ensureExact_invariant[OF ex init]) simp_all
qed

lemma decorated_emojis:
  assumes "decoratedTweets e txt ps = Inr ts"
  shows "\<forall>t\<in>set ts. length (emoji_suggestions t) \<le> 3 + length (extractEmojisFromText (tweet_text t))"
proof -
  from assms obtain exact where ex: "exactTweets e txt ps = Inr exact"
    by (auto simp: decoratedTweets_def split: sum.splits)
  let ?tagged = "if includeHashtags ps
                  then generateThreadHashtags e exact
                         \<lparr> maxHashtags = 4, englishRatio = 7 / 10,
                           includeThreadHashtag = False, forceArabic = False \<rparr>
                  else exact"
  have ts: "ts = dedupeHashtagsAndEmojis e ?tagged"
    using assms ex by (simp add: decoratedTweets_def Let_def)
  have fr: "map emoji_suggestions ?tagged = map emoji_suggestions exact"
    using frame_emojis[OF generateThreadHashtags_frame] by simp
  have b: "\<forall>t\<in>set ?tagged. length (emoji_suggestions t) \<le> 3"
  proof
    fix t assume "t \<in> set ?tagged"
    then have "emoji_suggestions t \<in> set (map emoji_suggestions ?tagged)"
      by (simp del: set_map add: set_map[of emoji_suggestions])
    then have "emoji_suggestions t \<in> set (map emoji_suggestions exact)"
      by (simp only: fr)
    then show "length (emoji_suggestions t) \<le> 3"
      using exactTweets_emojis[OF ex] by auto
  qed
  show ?thesis
  proof
    fix t assume "t \<in> set ts"
    then obtain i where i: "i < length ts" "t = ts ! i" by (auto simp: in_set_conv_nth)
    have len: "length ts = length ?tagged"
      using dedupe_emojis[of e ?tagged] ts by (metis length_map)
    have 1: "emoji_suggestions t = dedupeEmojis (emoji_suggestions (?tagged ! i) @ extractEmojisFromText (tweet_text (?tagged ! i)))"
      using dedupe_emojis[of e ?tagged] i len ts
      by (metis (no_types, lifting) nth_map length_map)
    have 2: "tweet_text t = tweet_text (?tagged ! i)"
      using dedupe_emojis[of e ?tagged] i len ts
      by (metis (no_types, lifting) nth_map length_map)
    have "?tagged ! i \<in> set ?tagged" using i len by simp
    then have 3: "length (emoji_suggestions (?tagged ! i)) \<le> 3" using b by blast
    have "length (emoji_suggestions t) \<le> length (emoji_suggestions (?tagged ! i)) + length (extractEmojisFromText (tweet_text (?tagged ! i)))"
      unfolding 1 using length_dedupeEmojis_le[of "emoji_suggestions (?tagged ! i) @ extractEmojisFromText (tweet_text (?tagged ! i))"]
      by simp
    then show "length (emoji_suggestions t) \<le> 3 + length (extractEmojisFromText (tweet_text t))"
      using 2 3 by simp
  qed
qed

lemma dedupeHashtagsAndEmojis_length: "length (dedupeHashtagsAndEmojis e ts) = length ts"
  by (simp add: dedupeHashtagsAndEmojis_def Let_def balance_length)

lemma generateThreadHashtags_length: "length (generateThreadHashtags e ts opts) = length ts"
proof -
  have "length (map (\<lambda>t. t\<lparr>hashtags := []\<rparr>) (generateThreadHashtags e ts opts))
      = length (map (\<lambda>t. t\<lparr>hashtags := []\<rparr>) ts)"
    by (simp only: generateThreadHashtags_frame)
  then show ?thesis by simp
qed

lemma decorated_length:
  assumes "exactTweets e txt ps = Inr ex"
  shows "decoratedTweets e txt ps = Inr (okTweets (decoratedTweets e txt ps))
       \<and> length (okTweets (decoratedTweets e txt ps)) = length ex"
  using assms
  by (simp add: decoratedTweets_def okTweets_def Let_def dedupeHashtagsAndEmojis_length
      generateThreadHashtags_length)

lemma exactTweets_outcome:
  "(0 < maxTweets ps \<and> segmentText txt (maxTweets ps) = [] \<and> exactTweets e txt ps = Inl TypeError)
   \<or> (\<not> (0 < maxTweets ps \<and> segmentText txt (maxTweets ps) = [])
       \<and> (\<exists>ex. exactTweets e txt ps = Inr ex \<and> length ex \<le> maxTweets ps
                \<and> (ex = [] \<longleftrightarrow> maxTweets ps = 0)))"
proof -
  let ?segs = "segmentText txt (maxTweets ps)"
  let ?ts = "map (buildTweet e ps (detectLanguagePercentages e txt) (length ?segs)) (enumerate 0 ?segs)"
  have ex: "exactTweets e txt ps = ensureExactTweetCount ?ts (maxTweets ps)"
    by (simp add: exactTweets_def Let_def)
  have len: "length ?ts = length ?segs" by simp
  show ?thesis
  proof (cases "maxTweets ps = 0")
    case True
    then have "?segs = []" by (simp add: segmentText_def)
    then have "exactTweets e txt ps = Inr []"
      using True ex by (simp add: ensureExactTweetCount_def)
    then show ?thesis using True by simp
  next
    case pos: False
    then have n: "1 \<le> maxTweets ps" by simp
    show ?thesis
    proof (cases "?segs = []")
      case True
      then have "exactTweets e txt ps = Inl TypeError" using ex n by (simp add: ensureExact_empty)
      then show ?thesis using True pos by simp
    next
      case False
      then have ne: "?ts \<noteq> []" using len by (metis length_0_conv)
      obtain rs where rs: "ensureExactTweetCount ?ts (maxTweets ps) = Inr rs"
        using ensureExact_Inl[of ?ts "maxTweets ps"] ne
        by (cases "ensureExactTweetCount ?ts (maxTweets ps)") auto
      from ensureExact_length[OF rs n] have "1 \<le> length rs" "length rs \<le> maxTweets ps" by simp_all
      then show ?thesis using False pos ex rs by auto
    qed
  qed
qed

section \<open>Deduplication is idempotent up to nested number signs\<close>

text \<open>
  Claim C8, as amended. \<open>dedupeEmojis\<close> is idempotent on every list. \<open>dedupeHashtags\<close>
  is idempotent on every list none of whose tags, once its leading number signs are
  removed and it is trimmed and lower-cased, begins with a number sign again. The claim
  is about the real \<open>toLowerCase\<close>, of which two facts are used: lower-casing twice is
  lower-casing once, and lower-casing a trimmed string gives a trimmed string.
\<close>

theorem dedupe_idempotent_amended:
  assumes lower_idem: "\<And>s. toLowerCase e (toLowerCase e s) = toLowerCase e s"
      and lower_trim: "\<And>s. trim s = s \<Longrightarrow> trim (toLowerCase e s) = toLowerCase e s"
      and no_inner_hash: "\<forall>tag\<in>set X. take 1 (cleanTag e tag) \<noteq> [0x23]"
  shows "dedupeHashtags e (dedupeHashtags e X) = dedupeHashtags e X
       \<and> dedupeEmojis (dedupeEmojis Y) = dedupeEmojis Y"
  using dedupeHashtags_idem[OF lower_idem lower_trim no_inner_hash] dedupeEmojis_idem
  by simp

theorem dedupe_idempotent_amended_witness:
  "take 1 (cleanTag asciiEnv (u16 ''#AI'')) \<noteq> [0x23]
   \<and> take 1 (cleanTag asciiEnv (u16 '' ai '')) \<noteq> [0x23]
   \<and> take 1 (cleanTag asciiEnv (u16 ''##Tech'')) \<noteq> [0x23]
   \<and> dedupeHashtags asciiEnv [u16 ''#AI'', u16 '' ai '', u16 ''##Tech''] = [u16 ''#ai'', u16 ''#tech'']
   \<and> dedupeHashtags asciiEnv (dedupeHashtags asciiEnv [u16 ''#AI'', u16 '' ai '', u16 ''##Tech''])
       = dedupeHashtags asciiEnv [u16 ''#AI'', u16 '' ai '', u16 ''##Tech'']
   \<and> dedupeEmojis (dedupeEmojis [u16 '' x'', u16 ''x'', u16 ''y '']) = dedupeEmojis [u16 '' x'', u16 ''x'', u16 ''y '']"
proof -
  let ?X = "[u16 ''#AI'', u16 '' ai '', u16 ''##Tech'']"
  have h: "\<forall>tag\<in>set ?X. take 1 (cleanTag asciiEnv tag) \<noteq> [0x23]"
    by (simp add: cleanTag_def stripHashes_def trim_def isWhiteSpace_def u16_def asciiEnv_def
        asciiLower_def)
  have v: "dedupeHashtags asciiEnv ?X = [u16 ''#ai'', u16 ''#tech'']"
    by code_simp
  show ?thesis
    using h v
      dedupe_idempotent_amended[of asciiEnv ?X "[u16 '' x'', u16 ''x'', u16 ''y '']",
        OF asciiEnv_lower_idem asciiEnv_lower_trim h]
    by simp
qed

text \<open>
  The tag \<open># #a\<close> keeps a number sign after the first pass (\<open>##a\<close>) and loses it in the
  second (\<open>#a\<close>).
\<close>

theorem dedupeHashtags_not_idempotent:
  "dedupeHashtags asciiEnv (dedupeHashtags asciiEnv [u16 ''# #a''])
     \<noteq> dedupeHashtags asciiEnv [u16 ''# #a'']"
  by code_simp

section \<open>Balancing hashtags across a thread\<close>

text \<open>
  Claim C3, as amended. After \<open>balanceHashtagsAcrossThread\<close>, no hashtag, after the
  normalisation of \<open>dedupeHashtags\<close> (leading number signs removed, trimmed, lower-cased,
  one number sign put back), is in two different messages of the thread, under two
  provisos. The pool of deduplicated hashtags is empty or holds at least \<open>maxPerTweet\<close>
  hashtags for every message: with a smaller pool the round robin wraps around and hands
  the same hashtag to several messages. And no hashtag of the thread, once its leading
  number signs are removed and it is trimmed and lower-cased, begins with a number sign
  again: the pool keeps such a hashtag with two number signs, beside the hashtag it
  normalises to. The claim is about the real \<open>toLowerCase\<close>, of which two facts are used:
  lower-casing twice is lower-casing once, and lower-casing a trimmed string gives a
  trimmed string.
\<close>

theorem balance_no_shared_hashtag:
  assumes lower_idem: "\<And>s. toLowerCase e (toLowerCase e s) = toLowerCase e s"
      and lower_trim: "\<And>s. trim s = s \<Longrightarrow> trim (toLowerCase e s) = toLowerCase e s"
      and no_inner_hash:
        "\<forall>tag\<in>set (concat (map hashtags tweets)). take 1 (cleanTag e tag) \<noteq> [0x23]"
      and pool: "dedupeHashtags e (concat (map hashtags tweets)) = []
             \<or> maxPerTweet * length tweets \<le> length (dedupeHashtags e (concat (map hashtags tweets)))"
      and ij: "i < j" "j < length tweets"
  shows "normalizeTag e ` set (hashtags (balanceHashtagsAcrossThread e tweets maxPerTweet ! i))
       \<inter> normalizeTag e ` set (hashtags (balanceHashtagsAcrossThread e tweets maxPerTweet ! j)) = {}"
proof -
  let ?B = "balanceHashtagsAcrossThread e tweets maxPerTweet"
  let ?U = "dedupeHashtags e (concat (map hashtags tweets))"
  have i: "i < length tweets" using ij by simp
  have normal: "\<And>y. y \<in> set ?U \<Longrightarrow> normalizeTag e y = Some y"
    by (rule pool_normal[OF lower_idem lower_trim no_inner_hash])
  have si: "set (hashtags (?B ! i)) \<subseteq> set ?U" using i by (rule balance_subset_pool)
  have sj: "set (hashtags (?B ! j)) \<subseteq> set ?U" using ij(2) by (rule balance_subset_pool)
  have ni: "normalizeTag e ` set (hashtags (?B ! i)) = Some ` set (hashtags (?B ! i))"
    using si normal by (intro image_cong refl) blast
  have nj: "normalizeTag e ` set (hashtags (?B ! j)) = Some ` set (hashtags (?B ! j))"
    using sj normal by (intro image_cong refl) blast
  have "set (hashtags (?B ! i)) \<inter> set (hashtags (?B ! j)) = {}"
    using pool ij by (rule balance_disjoint)
  then show ?thesis unfolding ni nj by blast
qed

theorem balance_no_shared_hashtag_witness:
  "list_all (\<lambda>tag. take 1 (cleanTag asciiEnv tag) \<noteq> [0x23])
      (concat (map hashtags
        [plainTweet 1 (u16 ''one'') [u16 ''#A'', u16 ''##b'', u16 ''c''],
         plainTweet 2 (u16 ''two'') [u16 ''d'', u16 ''#e'', u16 ''#a'', u16 ''#f'']]))
   \<and> 3 * length [plainTweet 1 (u16 ''one'') [u16 ''#A'', u16 ''##b'', u16 ''c''],
         plainTweet 2 (u16 ''two'') [u16 ''d'', u16 ''#e'', u16 ''#a'', u16 ''#f'']]
       \<le> length (dedupeHashtags asciiEnv (concat (map hashtags
        [plainTweet 1 (u16 ''one'') [u16 ''#A'', u16 ''##b'', u16 ''c''],
         plainTweet 2 (u16 ''two'') [u16 ''d'', u16 ''#e'', u16 ''#a'', u16 ''#f'']])))
   \<and> map hashtags (balanceHashtagsAcrossThread asciiEnv
        [plainTweet 1 (u16 ''one'') [u16 ''#A'', u16 ''##b'', u16 ''c''],
         plainTweet 2 (u16 ''two'') [u16 ''d'', u16 ''#e'', u16 ''#a'', u16 ''#f'']] 3)
       = [[u16 ''#a'', u16 ''#b'', u16 ''#c''], [u16 ''#d'', u16 ''#e'', u16 ''#f'']]
   \<and> normalizeTag asciiEnv ` set (hashtags (balanceHashtagsAcrossThread asciiEnv
        [plainTweet 1 (u16 ''one'') [u16 ''#A'', u16 ''##b'', u16 ''c''],
         plainTweet 2 (u16 ''two'') [u16 ''d'', u16 ''#e'', u16 ''#a'', u16 ''#f'']] 3 ! 0))
     \<inter> normalizeTag asciiEnv ` set (hashtags (balanceHashtagsAcrossThread asciiEnv
        [plainTweet 1 (u16 ''one'') [u16 ''#A'', u16 ''##b'', u16 ''c''],
         plainTweet 2 (u16 ''two'') [u16 ''d'', u16 ''#e'', u16 ''#a'', u16 ''#f'']] 3 ! 1)) = {}"
proof -
  let ?ts = "[plainTweet 1 (u16 ''one'') [u16 ''#A'', u16 ''##b'', u16 ''c''],
              plainTweet 2 (u16 ''two'') [u16 ''d'', u16 ''#e'', u16 ''#a'', u16 ''#f'']]"
  have pool: "dedupeHashtags asciiEnv (concat (map hashtags ?ts))
      = [u16 ''#a'', u16 ''#b'', u16 ''#c'', u16 ''#d'', u16 ''#e'', u16 ''#f'']"
    by code_simp
  have nh: "list_all (\<lambda>tag. take 1 (cleanTag asciiEnv tag) \<noteq> [0x23]) (concat (map hashtags ?ts))"
    by (simp add: plainTweet_def cleanTag_def stripHashes_def trim_def isWhiteSpace_def u16_def
        asciiEnv_def asciiLower_def)
  then have nh': "\<forall>tag\<in>set (concat (map hashtags ?ts)). take 1 (cleanTag asciiEnv tag) \<noteq> [0x23]"
    unfolding list_all_iff .
  have big: "3 * length ?ts \<le> length (dedupeHashtags asciiEnv (concat (map hashtags ?ts)))"
    unfolding pool by simp
  then have h: "dedupeHashtags asciiEnv (concat (map hashtags ?ts)) = []
      \<or> 3 * length ?ts \<le> length (dedupeHashtags asciiEnv (concat (map hashtags ?ts)))"
    by (rule disjI2)
  have v: "map hashtags (balanceHashtagsAcrossThread asciiEnv ?ts 3)
      = [[u16 ''#a'', u16 ''#b'', u16 ''#c''], [u16 ''#d'', u16 ''#e'', u16 ''#f'']]"
    by code_simp
  have "normalizeTag asciiEnv ` set (hashtags (balanceHashtagsAcrossThread asciiEnv ?ts 3 ! 0))
      \<inter> normalizeTag asciiEnv ` set (hashtags (balanceHashtagsAcrossThread asciiEnv ?ts 3 ! 1)) = {}"
    by (rule balance_no_shared_hashtag[OF asciiEnv_lower_idem asciiEnv_lower_trim nh' h]) simp_all
  with nh big v show ?thesis by blast
qed

text \<open>
  The claim as written fails in two ways. In a thread of two messages with the single
  hashtag \<open>#a\<close>, both messages receive it. In a thread of two messages with the hashtags
  \<open>#a\<close>, \<open>#b\<close>, \<open>#c\<close> and \<open># #a\<close>, \<open>#e\<close>, \<open>#f\<close>, the pool holds six hashtags, three
  for each message; the first message receives \<open>#a\<close> and the second \<open>##a\<close>, and both
  normalise to \<open>#a\<close>.
\<close>

theorem balance_shares_hashtag:
  "u16 ''#a'' \<in> set (hashtags (balanceHashtagsAcrossThread asciiEnv
        [plainTweet 1 (u16 ''one'') [u16 ''#a''], plainTweet 2 (u16 ''two'') []] 3 ! 0))
     \<inter> set (hashtags (balanceHashtagsAcrossThread asciiEnv
        [plainTweet 1 (u16 ''one'') [u16 ''#a''], plainTweet 2 (u16 ''two'') []] 3 ! 1))
   \<and> 3 * length [plainTweet 1 (u16 ''one'') [u16 ''#a'', u16 ''#b'', u16 ''#c''],
         plainTweet 2 (u16 ''two'') [u16 ''# #a'', u16 ''#e'', u16 ''#f'']]
       \<le> length (dedupeHashtags asciiEnv (concat (map hashtags
        [plainTweet 1 (u16 ''one'') [u16 ''#a'', u16 ''#b'', u16 ''#c''],
         plainTweet 2 (u16 ''two'') [u16 ''# #a'', u16 ''#e'', u16 ''#f'']])))
   \<and> map hashtags (balanceHashtagsAcrossThread asciiEnv
        [plainTweet 1 (u16 ''one'') [u16 ''#a'', u16 ''#b'', u16 ''#c''],
         plainTweet 2 (u16 ''two'') [u16 ''# #a'', u16 ''#e'', u16 ''#f'']] 3)
       = [[u16 ''#a'', u16 ''#b'', u16 ''#c''], [u16 ''##a'', u16 ''#e'', u16 ''#f'']]
   \<and> normalizeTag asciiEnv (u16 ''#a'') = Some (u16 ''#a'')
   \<and> normalizeTag asciiEnv (u16 ''##a'') = Some (u16 ''#a'')"
  by code_simp

text \<open>
  Claim C10. \<open>balanceHashtagsAcrossThread\<close> returns as many tweets as it is given, in the
  same order, and changes no field other than \<open>hashtags\<close>: with the hashtags erased on
  both sides, the returned list is the given one.
\<close>

theorem balance_preserves_structure:
  "length (balanceHashtagsAcrossThread e tweets maxPerTweet) = length tweets
   \<and> map (\<lambda>t. t\<lparr>hashtags := []\<rparr>) (balanceHashtagsAcrossThread e tweets maxPerTweet)
       = map (\<lambda>t. t\<lparr>hashtags := []\<rparr>) tweets"
  by (simp only: balance_length balance_frame)

theorem balance_preserves_structure_witness:
  "[plainTweet 1 (u16 ''one'') [u16 ''#a''], plainTweet 2 (u16 ''two'') []] \<noteq> []
   \<and> length (balanceHashtagsAcrossThread asciiEnv
        [plainTweet 1 (u16 ''one'') [u16 ''#a''], plainTweet 2 (u16 ''two'') []] 3) = 2
   \<and> map (\<lambda>t. t\<lparr>hashtags := []\<rparr>) (balanceHashtagsAcrossThread asciiEnv
        [plainTweet 1 (u16 ''one'') [u16 ''#a''], plainTweet 2 (u16 ''two'') []] 3)
       = [plainTweet 1 (u16 ''one'') [], plainTweet 2 (u16 ''two'') []]"
  using balance_preserves_structure[of asciiEnv
      "[plainTweet 1 (u16 ''one'') [u16 ''#a''], plainTweet 2 (u16 ''two'') []]" 3]
  by (simp add: plainTweet_def)

section \<open>Smart truncation\<close>

text \<open>
  Claim C9. When the space reserved for the hashtags and the call-to-action (their
  joined length in code units, plus one separator each) is at least the limit,
  \<open>truncateSmart\<close> returns the empty string, whatever the text.
\<close>

theorem truncateSmart_no_room:
  assumes "maxLen \<le> int (hashtagSpace tags) + int (ctaSpace ctaText)"
  shows "truncateSmart e txt maxLen tags ctaText = []"
  using assms by (simp add: truncateSmart_def Let_def)

theorem truncateSmart_no_room_witness:
  "(10::int) \<le> int (hashtagSpace [u16 ''#test'']) + int (ctaSpace (Some (u16 ''Go!'')))
   \<and> truncateSmart asciiEnv (u16 ''Hello world'') 10 [u16 ''#test''] (Some (u16 ''Go!'')) = []"
proof -
  have h: "(10::int) \<le> int (hashtagSpace [u16 ''#test'']) + int (ctaSpace (Some (u16 ''Go!'')))"
    by (simp add: hashtagSpace_def ctaSpace_def u16_def)
  from truncateSmart_no_room[OF h] h show ?thesis by simp
qed

text \<open>
  Claim C4 fails on the code. With a limit of 18, the hashtag \<open>#test\<close> and the
  call-to-action \<open>Thoughts?\<close>, two units are left for the text. No word fits, so the
  last branch runs with \<open>availableSpace - 3 = -1\<close>, and \<open>slice(0, -1)\<close> keeps all but the
  last grapheme: the result is 38 units long, and 54 are counted with the hashtag and the
  call-to-action.
\<close>

theorem truncateSmart_exceeds_limit:
  "truncateSmart asciiEnv (u16 ''Very long text that needs truncation'') 18 [u16 ''#test'']
       (Some (u16 ''Thoughts?''))
     = u16 ''Very long text that needs truncatio...''
   \<and> getCharCount asciiEnv
       (truncateSmart asciiEnv (u16 ''Very long text that needs truncation'') 18 [u16 ''#test'']
          (Some (u16 ''Thoughts?'')))
       [u16 ''#test''] (Some (u16 ''Thoughts?'')) = 54"
  by code_simp

text \<open>
  The overflow needs an available space of one or two units. With no space at all, or
  with three units or more, the result counts at most \<open>maxLength\<close> with the hashtags and
  the call-to-action, for a limit that is not negative and for any splitter that
  returns no more clusters than code units, no more clusters for a concatenation than
  for its two parts, and at most \<open>k\<close> clusters for the first \<open>k\<close> clusters of a string
  joined again.
\<close>

lemma getCharCount_plain: "getCharCount e r [] (Some []) = (if r = [] then 0 else length (splitGraphemes e r))"
  by (simp add: getCharCount_def)

lemma count_with_extras:
  assumes S1: "\<And>s. length (splitGraphemes e s) \<le> length s"
      and S2: "\<And>a b. length (splitGraphemes e (a @ b)) \<le> length (splitGraphemes e a) + length (splitGraphemes e b)"
  shows "getCharCount e r tags c \<le> getCharCount e r [] (Some []) + hashtagSpace tags + ctaSpace c"
proof (cases "r = []")
  case True
  then show ?thesis by (simp add: getCharCount_def)
next
  case False
  let ?sp = "u16 '' ''"
  have sp: "length ?sp = 1" by (simp add: u16_def)
  have ext: "\<And>a x. length (splitGraphemes e (a @ ?sp @ x)) \<le> length (splitGraphemes e a) + (length x + 1)"
  proof -
    fix a x
    have "length (splitGraphemes e (a @ ?sp @ x)) \<le> length (splitGraphemes e a) + length (splitGraphemes e (?sp @ x))"
      by (rule S2)
    also have "length (splitGraphemes e (?sp @ x)) \<le> length (?sp @ x)" by (rule S1)
    finally show "length (splitGraphemes e (a @ ?sp @ x)) \<le> length (splitGraphemes e a) + (length x + 1)"
      using sp by simp
  qed
  let ?wt = "if length tags > 0
                then (let hashtagText = join ?sp tags
                      in if \<not> str_includes r hashtagText
                         then r @ ?sp @ hashtagText else r)
                else r"
  have wt: "length (splitGraphemes e ?wt) \<le> length (splitGraphemes e r) + hashtagSpace tags"
    using ext[of r "join ?sp tags"] by (auto simp: hashtagSpace_def Let_def)
  let ?full = "case c of None \<Rightarrow> ?wt
                | Some c' \<Rightarrow> if c' \<noteq> [] \<and> \<not> str_includes ?wt c' then ?wt @ ?sp @ c' else ?wt"
  have "length (splitGraphemes e ?full) \<le> length (splitGraphemes e ?wt) + ctaSpace c"
  proof (cases c)
    case None
    then show ?thesis by simp
  next
    case (Some c')
    then show ?thesis using ext[of ?wt c'] by (auto simp: ctaSpace_def)
  qed
  then have "length (splitGraphemes e ?full) \<le> length (splitGraphemes e r) + hashtagSpace tags + ctaSpace c"
    using wt by simp
  moreover have "getCharCount e r tags c = length (splitGraphemes e ?full)"
    using False by (simp add: getCharCount_def Let_def)
  ultimately show ?thesis using False by (simp add: getCharCount_plain)
qed

lemma accumulate_fits:
  assumes "int (getCharCount e t [] (Some [])) \<le> avail"
  shows "int (getCharCount e (accumulate e sep avail t pieces) [] (Some [])) \<le> avail"
  using assms by (induction pieces arbitrary: t) (simp_all add: Let_def)

lemma hard_cut_fits:
  assumes S1: "\<And>s. length (splitGraphemes e s) \<le> length s"
      and S2: "\<And>a b. length (splitGraphemes e (a @ b)) \<le> length (splitGraphemes e a) + length (splitGraphemes e b)"
      and S3: "\<And>s k. length (splitGraphemes e (concat (take k (splitGraphemes e s)))) \<le> k"
      and k: "0 \<le> k"
  shows "int (getCharCount e (concat (sliceFromStart (splitGraphemes e s) k) @ u16 ''...'') [] (Some [])) \<le> k + 3"
proof -
  let ?p = "concat (take (nat k) (splitGraphemes e s))"
  have "length (splitGraphemes e (?p @ u16 ''...'')) \<le> length (splitGraphemes e ?p) + length (splitGraphemes e (u16 ''...''))"
    by (rule S2)
  also have "\<dots> \<le> nat k + length (u16 ''...'')"
    using S3[of "nat k" s] S1[of "u16 ''...''"] by simp
  finally have "length (splitGraphemes e (?p @ u16 ''...'')) \<le> nat k + 3" by (simp add: u16_def)
  then have "int (length (splitGraphemes e (?p @ u16 ''...''))) \<le> k + 3" using k by linarith
  moreover have "?p @ u16 ''...'' \<noteq> []" by (simp add: u16_def)
  ultimately show ?thesis
    using k by (simp only: getCharCount_plain sliceFromStart_def if_False) simp
qed

lemma truncateSmart_within_limit:
  assumes S1: "\<And>s. length (splitGraphemes e s) \<le> length s"
      and S2: "\<And>a b. length (splitGraphemes e (a @ b)) \<le> length (splitGraphemes e a) + length (splitGraphemes e b)"
      and S3: "\<And>s k. length (splitGraphemes e (concat (take k (splitGraphemes e s)))) \<le> k"
      and lim: "0 \<le> maxLen"
      and room: "maxLen - int (hashtagSpace tags) - int (ctaSpace ctaText) \<le> 0
               \<or> 3 \<le> maxLen - int (hashtagSpace tags) - int (ctaSpace ctaText)"
  shows "int (getCharCount e (truncateSmart e txt maxLen tags ctaText) tags ctaText) \<le> maxLen"
proof -
  let ?avail = "maxLen - int (hashtagSpace tags) - int (ctaSpace ctaText)"
  let ?r = "truncateSmart e txt maxLen tags ctaText"
  have zero: "int (getCharCount e [] [] (Some [])) \<le> ?avail" if "0 < ?avail"
    using that by (simp add: getCharCount_def)
  have fits: "?r = [] \<or> int (getCharCount e ?r [] (Some [])) \<le> ?avail"
  proof (cases "txt = [] \<or> ?avail \<le> 0")
    case True
    then show ?thesis by (auto simp: truncateSmart_def Let_def)
  next
    case False
    then have pos: "0 < ?avail" and three: "3 \<le> ?avail" using room by auto
    have w: "int (getCharCount e (accumulate e (u16 '' '') ?avail [] (regexSplit matchSpaces [] txt)) [] (Some [])) \<le> ?avail"
      by (rule accumulate_fits) (rule zero[OF pos])
    have s: "int (getCharCount e (accumulate e (u16 ''. '') ?avail [] (regexSplit matchSentenceEnd [] txt)) [] (Some [])) \<le> ?avail"
      by (rule accumulate_fits) (rule zero[OF pos])
    have h: "int (getCharCount e (concat (sliceFromStart (splitGraphemes e txt) (?avail - 3)) @ u16 ''...'') [] (Some [])) \<le> ?avail"
      using hard_cut_fits[OF S1 S2 S3, of "?avail - 3" "txt"] three by simp
    show ?thesis
      using False w s h by (auto simp: truncateSmart_def Let_def)
  qed
  show ?thesis
  proof (cases "?r = []")
    case True
    then show ?thesis using lim by (simp add: getCharCount_def)
  next
    case False
    with fits have "int (getCharCount e ?r [] (Some [])) \<le> ?avail" by simp
    moreover have "getCharCount e ?r tags ctaText \<le> getCharCount e ?r [] (Some []) + hashtagSpace tags + ctaSpace ctaText"
      by (rule count_with_extras[OF S1 S2])
    ultimately show ?thesis by linarith
  qed
qed

lemma asciiEnv_split:
  "length (splitGraphemes asciiEnv s) \<le> length s"
  "length (splitGraphemes asciiEnv (a @ b)) \<le> length (splitGraphemes asciiEnv a) + length (splitGraphemes asciiEnv b)"
  "length (splitGraphemes asciiEnv (concat (take k (splitGraphemes asciiEnv s)))) \<le> k"
  by (simp_all add: asciiEnv_def take_map concat_map_singleton)

section \<open>Evaluations of the generator\<close>


lemma fallback_Hi:
  "map (\<lambda>t. (char_count t, getCharCount asciiEnv (tweet_text t) (hashtags t) (cta t)))
       (resultThread (generateFallbackThread asciiEnv (u16 ''Hi'') (plainParams 5)))
     = [(22, 22), (7, 33)]"
  by code_simp








text \<open>
  Four sentences and three tweets: the sentences make two groups, and the second group,
  the longer one, is split.
\<close>

lemma fallback_four_sentences:
  "map cta (resultThread (generateFallbackThread asciiEnv
      (u16 ''Aa. Bb. Cc. This final sentence is deliberately long so that the last group of sentences exceeds one hundred code units'')
      (plainParams 3)))
     = [None, Some (u16 ''Share your expertise '' @ [0x11F, 0x178, 0x2019, 0xBC]),
        Some (u16 ''Share your expertise '' @ [0x11F, 0x178, 0x2019, 0xBC])]"
  by code_simp

text \<open>A text with the emoji U+2600.\<close>

lemma fallback_sun:
  "map emoji_suggestions (resultThread (generateFallbackThread asciiEnv
      (u16 ''Sun '' @ [0x2600] @ u16 '' day'') (plainParams 1)))
     = [[[0x11F, 0x178, 0x201C, 0x160], [0x11F, 0x178, 0x2019, 0xBC],
         [0x11F, 0x178, 0x201C, 0x2C6], [0x2600]]]"
  by code_simp

lemma fallback_cases:
  "(\<exists>r. generateFallbackThread e txt ps = Returns (ThreadResult r))
   \<or> generateFallbackThread e txt ps
       = Returns (ErrorResult \<lparr> error = u16 ''Failed to generate thread using local fallback'',
                               code = 500 \<rparr>)"
  unfolding generateFallbackThread_def by (cases "tryBlock e txt ps") simp_all

lemma resultThread_nonempty:
  assumes "resultThread (generateFallbackThread e txt ps) \<noteq> []"
  shows "\<exists>r. generateFallbackThread e txt ps = Returns (ThreadResult r)"
  using assms fallback_cases[of e "txt" ps] by (auto simp: resultThread_def)

section \<open>Segmentation followed by rebalancing\<close>




section \<open>Emoji suggestions\<close>

text \<open>
  Claim C6, as amended. \<open>generateEmojis\<close> suggests three emojis at most, and the
  deduplication pass adds the emojis it finds in the text of the message, without a
  cap: a message of a returned thread has at most three suggestions more than its text
  had emojis when that pass ran. The text is the one of the thread before the
  validation pass, which may truncate it afterwards.
\<close>

theorem emoji_suggestions_bound:
  assumes "generateFallbackThread e txt ps = Returns (ThreadResult r)"
  shows "decoratedTweets e txt ps = Inr (okTweets (decoratedTweets e txt ps))
       \<and> map emoji_suggestions (thread r) = map emoji_suggestions (okTweets (decoratedTweets e txt ps))
       \<and> (\<forall>t\<in>set (okTweets (decoratedTweets e txt ps)).
             length (emoji_suggestions t) \<le> 3 + length (extractEmojisFromText (tweet_text t)))"
proof -
  from assms obtain ts where d: "decoratedTweets e txt ps = Inr ts"
    and r: "thread r = validateAndFix e ts"
    by (auto simp: generateFallbackThread_def tryBlock_def Let_def split: sum.splits)
  have ok: "okTweets (decoratedTweets e txt ps) = ts" using d by (simp add: okTweets_def)
  show ?thesis
    unfolding ok using d r decorated_emojis[OF d] by (simp add: validateAndFix_emojis)
qed

theorem emoji_suggestions_bound_witness:
  "map emoji_suggestions (okTweets (decoratedTweets asciiEnv
       (u16 ''Sun '' @ [0x2600] @ u16 '' day'') (plainParams 1)))
     = [[[0x11F, 0x178, 0x201C, 0x160], [0x11F, 0x178, 0x2019, 0xBC],
         [0x11F, 0x178, 0x201C, 0x2C6], [0x2600]]]
   \<and> list_all (\<lambda>t. length (emoji_suggestions t) \<le> 3 + length (extractEmojisFromText (tweet_text t)))
       (okTweets (decoratedTweets asciiEnv (u16 ''Sun '' @ [0x2600] @ u16 '' day'') (plainParams 1)))"
proof -
  have "resultThread (generateFallbackThread asciiEnv
      (u16 ''Sun '' @ [0x2600] @ u16 '' day'') (plainParams 1)) \<noteq> []"
    using fallback_sun by auto
  then obtain r where r: "generateFallbackThread asciiEnv
      (u16 ''Sun '' @ [0x2600] @ u16 '' day'') (plainParams 1) = Returns (ThreadResult r)"
    using resultThread_nonempty by blast
  then have "thread r = resultThread (generateFallbackThread asciiEnv
      (u16 ''Sun '' @ [0x2600] @ u16 '' day'') (plainParams 1))"
    by (simp add: resultThread_def)
  with emoji_suggestions_bound[OF r] fallback_sun show ?thesis
    by (simp add: list_all_iff)
qed

text \<open>
  With the emoji U+2600 in its text, the only message of the thread has four
  suggestions.
\<close>

theorem emoji_suggestions_four:
  "map emoji_suggestions (resultThread (generateFallbackThread asciiEnv
      (u16 ''Sun '' @ [0x2600] @ u16 '' day'') (plainParams 1)))
     = [[[0x11F, 0x178, 0x201C, 0x160], [0x11F, 0x178, 0x2019, 0xBC],
         [0x11F, 0x178, 0x201C, 0x2C6], [0x2600]]]"
  by (rule fallback_sun)

section \<open>The local generator never throws\<close>

text \<open>
  Claim C7. For every text and all options with one of the five styles,
  \<open>generateFallbackThread\<close> returns and never ends by throwing. It returns the error
  object, with the message of the \<open>catch\<close> clause and the code 500, exactly when its body
  fails; the body fails exactly when a positive number of tweets is asked for and
  \<open>segmentText\<close> finds no segment, for then \<open>ensureExactTweetCount\<close> reads the text of a
  tweet that is not there, and the \<open>TypeError\<close> is caught. In every other case it
  returns the result object that the body builds, with its five fields: the thread is the
  list of tweets after the validation pass, the metadata give its length and the number
  of tweets asked for, it has at most that many tweets, and none only when none was
  asked for.
\<close>

theorem generateFallbackThread_never_throws:
  assumes sty: "style ps \<in> set validStyles"
  shows "(0 < maxTweets ps \<and> segmentText txt (maxTweets ps) = []
      \<and> tryBlock e txt ps = Inl TypeError
      \<and> generateFallbackThread e txt ps
          = Returns (ErrorResult \<lparr> error = u16 ''Failed to generate thread using local fallback'',
                                  code = 500 \<rparr>))
   \<or> (\<not> (0 < maxTweets ps \<and> segmentText txt (maxTweets ps) = [])
      \<and> (\<exists>r. tryBlock e txt ps = Inr r
             \<and> generateFallbackThread e txt ps = Returns (ThreadResult r)
             \<and> thread r = validateAndFix e (okTweets (decoratedTweets e txt ps))
             \<and> tweets_generated (metadata r) = length (thread r)
             \<and> max_tweets_requested (metadata r) = maxTweets ps
             \<and> length (thread r) \<le> maxTweets ps
             \<and> (thread r = [] \<longleftrightarrow> maxTweets ps = 0)))"
proof -
  from exactTweets_outcome[of ps "txt" e]
  consider (err) "0 < maxTweets ps" "segmentText txt (maxTweets ps) = []" "exactTweets e txt ps = Inl TypeError"
    | (ok) ex where "\<not> (0 < maxTweets ps \<and> segmentText txt (maxTweets ps) = [])"
        "exactTweets e txt ps = Inr ex" "length ex \<le> maxTweets ps" "ex = [] \<longleftrightarrow> maxTweets ps = 0"
    by auto
  then show ?thesis
  proof cases
    case err
    then have "tryBlock e txt ps = Inl TypeError"
      by (simp add: tryBlock_def decoratedTweets_def Let_def)
    then show ?thesis using err by (simp add: generateFallbackThread_def)
  next
    case ok
    from decorated_length[OF ok(2)]
    have d: "decoratedTweets e txt ps = Inr (okTweets (decoratedTweets e txt ps))"
      and l: "length (okTweets (decoratedTweets e txt ps)) = length ex" by simp_all
    let ?ts = "validateAndFix e (okTweets (decoratedTweets e txt ps))"
    have lt: "length ?ts = length ex" using l by (simp add: validateAndFix_length)
    then have e0: "?ts = [] \<longleftrightarrow> ex = []" by (metis length_0_conv)
    obtain ds where ds: "decoratedTweets e txt ps = Inr ds" using d by blast
    then have okds: "okTweets (decoratedTweets e txt ps) = ds" by (simp add: okTweets_def)
    have "\<exists>r. tryBlock e txt ps = Inr r \<and> thread r = validateAndFix e ds
        \<and> tweets_generated (metadata r) = length (validateAndFix e ds)
        \<and> max_tweets_requested (metadata r) = maxTweets ps"
      by (simp add: tryBlock_def Let_def ds)
    then obtain r where r: "tryBlock e txt ps = Inr r" "thread r = ?ts"
        "tweets_generated (metadata r) = length ?ts" "max_tweets_requested (metadata r) = maxTweets ps"
      unfolding okds by blast
    then have "generateFallbackThread e txt ps = Returns (ThreadResult r)"
      by (simp add: generateFallbackThread_def)
    then show ?thesis using r ok lt e0 by auto
  qed
qed

theorem generateFallbackThread_never_throws_witness:
  "style (plainParams 5) \<in> set validStyles
   \<and> tryBlock asciiEnv [] (plainParams 5) = Inl TypeError
   \<and> generateFallbackThread asciiEnv [] (plainParams 5)
       = Returns (ErrorResult \<lparr> error = u16 ''Failed to generate thread using local fallback'',
                               code = 500 \<rparr>)
   \<and> (\<exists>r. generateFallbackThread asciiEnv (u16 ''Hi'') (plainParams 5) = Returns (ThreadResult r)
          \<and> tweets_generated (metadata r) = 2)
   \<and> length (resultThread (generateFallbackThread asciiEnv (u16 ''Hi'') (plainParams 5))) = 2"
proof -
  have sty: "style (plainParams 5) \<in> set validStyles" by (simp add: plainParams_def validStyles_def)
  have 1: "0 < maxTweets (plainParams 5) \<and> segmentText [] (maxTweets (plainParams 5)) = []"
    by (simp add: segmentText_def plainParams_def)
  have "length (map (\<lambda>t. (char_count t, getCharCount asciiEnv (tweet_text t) (hashtags t) (cta t)))
       (resultThread (generateFallbackThread asciiEnv (u16 ''Hi'') (plainParams 5)))) = 2"
    by (simp only: fallback_Hi) simp
  then have 2: "length (resultThread (generateFallbackThread asciiEnv (u16 ''Hi'') (plainParams 5))) = 2"
    by simp
  then have "generateFallbackThread asciiEnv (u16 ''Hi'') (plainParams 5)
      \<noteq> Returns (ErrorResult \<lparr> error = u16 ''Failed to generate thread using local fallback'',
                               code = 500 \<rparr>)"
    by (auto simp: resultThread_def)
  with generateFallbackThread_never_throws[OF sty, of "u16 ''Hi''" asciiEnv]
  obtain r where r: "generateFallbackThread asciiEnv (u16 ''Hi'') (plainParams 5) = Returns (ThreadResult r)"
      "tweets_generated (metadata r) = length (thread r)"
    by auto
  then have "tweets_generated (metadata r) = 2" using 2 by (simp add: resultThread_def)
  with r have 3: "\<exists>r. generateFallbackThread asciiEnv (u16 ''Hi'') (plainParams 5) = Returns (ThreadResult r)
          \<and> tweets_generated (metadata r) = 2" by blast
  from generateFallbackThread_never_throws[OF sty, of "[]" asciiEnv] 1
  have "tryBlock asciiEnv [] (plainParams 5) = Inl TypeError
   \<and> generateFallbackThread asciiEnv [] (plainParams 5)
       = Returns (ErrorResult \<lparr> error = u16 ''Failed to generate thread using local fallback'',
                               code = 500 \<rparr>)"
    by blast
  with sty 2 3 show ?thesis by blast
qed

section \<open>Character counts and calls-to-action of the returned thread\<close>

text \<open>
  Claim C1 fails on the code. The validation pass recomputes \<open>char_count\<close> with the
  hashtags and the call-to-action only for the tweets it truncates; the others keep the
  count of their text alone, taken when the tweet was built. For the text \<open>Hi\<close> the
  last message has a count of 7, and 33 with its call-to-action.
\<close>

theorem char_count_stale:
  "map char_count (resultThread (generateFallbackThread asciiEnv (u16 ''Hi'') (plainParams 5)))
     = [22, 7]
   \<and> map (\<lambda>t. getCharCount asciiEnv (tweet_text t) (hashtags t) (cta t))
       (resultThread (generateFallbackThread asciiEnv (u16 ''Hi'') (plainParams 5)))
     = [22, 33]"
proof -
  have "map fst (map (\<lambda>t. (char_count t, getCharCount asciiEnv (tweet_text t) (hashtags t) (cta t)))
       (resultThread (generateFallbackThread asciiEnv (u16 ''Hi'') (plainParams 5)))) = [22, 7]"
       "map snd (map (\<lambda>t. (char_count t, getCharCount asciiEnv (tweet_text t) (hashtags t) (cta t)))
       (resultThread (generateFallbackThread asciiEnv (u16 ''Hi'') (plainParams 5)))) = [22, 33]"
    by (simp_all only: fallback_Hi) simp_all
  then show ?thesis by (simp add: o_def)
qed

text \<open>
  Claim C5 fails on the code. When \<open>ensureExactTweetCount\<close> splits the last tweet, both
  halves keep its call-to-action: in the thread of three messages below, the second
  message has one as well as the third.
\<close>

theorem cta_on_both_halves:
  "map cta (resultThread (generateFallbackThread asciiEnv
      (u16 ''Aa. Bb. Cc. This final sentence is deliberately long so that the last group of sentences exceeds one hundred code units'')
      (plainParams 3)))
     = [None, Some (u16 ''Share your expertise '' @ [0x11F, 0x178, 0x2019, 0xBC]),
        Some (u16 ''Share your expertise '' @ [0x11F, 0x178, 0x2019, 0xBC])]"
  by (rule fallback_four_sentences)

end
